theory Spec2Isabelle
  imports Complex_Main "HOL-Library.Word" "HOL-Library.Signed_Division"
begin

section \<open>Shared data model\<close>

text \<open>
  Python exceptions are values: every function of the source that can raise returns
  \<open>py_error + 'a\<close>, with \<open>Inl\<close> for the exception.
\<close>

datatype py_error =
  ValueError | RuntimeError | ZeroDivisionError | TypeError | AttributeError | IndexError | OSError

text \<open>
  An image is a height x width x channel array of samples, a batch is a tensor of shape
  \<open>[B, H, W, C]\<close>. The three trailing dimensions are kept as fields, since a batch with
  no image still has them; \<open>B\<close> is the length of \<open>t_images\<close>. Samples are reals: the
  rounding of floating point is outside the model.
\<close>

type_synonym image = "real list list list"

record tensor =
  t_height :: nat
  t_width :: nat
  t_channels :: nat
  t_images :: "image list"

definition batch_size_of :: "tensor \<Rightarrow> nat" where
  "batch_size_of t = length (t_images t)"

definition zeros_image :: "nat \<Rightarrow> nat \<Rightarrow> nat \<Rightarrow> image" where
  "zeros_image h w c = replicate h (replicate w (replicate c 0))"

text \<open>\<open>torch.zeros((b, h, w, c))\<close>\<close>

definition zeros :: "nat \<Rightarrow> nat \<Rightarrow> nat \<Rightarrow> nat \<Rightarrow> tensor" where
  "zeros b h w c =
     \<lparr>t_height = h, t_width = w, t_channels = c, t_images = replicate b (zeros_image h w c)\<rparr>"

definition same_trailing_shape :: "tensor \<Rightarrow> tensor \<Rightarrow> bool" where
  "same_trailing_shape a b \<longleftrightarrow>
     t_height b = t_height a \<and> t_width b = t_width a \<and> t_channels b = t_channels a"

text \<open>
  \<open>torch.cat(ts, dim=0)\<close>: raises on an empty list and when two tensors differ in a
  dimension other than the batch dimension; otherwise the images follow one another in
  the order of the list.
\<close>

fun torch_cat :: "tensor list \<Rightarrow> py_error + tensor" where
  "torch_cat [] = Inl RuntimeError"
| "torch_cat (t # ts) =
     (if list_all (same_trailing_shape t) ts
      then Inr (t\<lparr>t_images := concat (map t_images (t # ts))\<rparr>)
      else Inl RuntimeError)"

text \<open>
  Floating point. A float is the real number it denotes, and an arithmetic operation on
  floats is the exact operation followed by the rounding of the format. The roundings
  are parameters: \<open>round64\<close> for Python's floats, \<open>round32\<close> for the samples of tensors
  and arrays. Not-a-number and the infinities are outside the model. \<open>no_rounding\<close> is
  the instance for operations whose exact results the format represents.
\<close>

record float_ops =
  round64 :: "real \<Rightarrow> real"
  round32 :: "real \<Rightarrow> real"

definition no_rounding :: float_ops where
  "no_rounding = \<lparr>round64 = (\<lambda>x. x), round32 = (\<lambda>x. x)\<rparr>"

text \<open>
  What the properties below use of a rounding to nearest: it is monotone and leaves 0, 1
  and 255 as they are.
\<close>

definition rounds_to_nearest :: "(real \<Rightarrow> real) \<Rightarrow> bool" where
  "rounds_to_nearest rnd \<longleftrightarrow>
     (\<forall>x y. x \<le> y \<longrightarrow> rnd x \<le> rnd y) \<and> rnd 0 = 0 \<and> rnd 1 = 1 \<and> rnd 255 = 255"

text \<open>Sequencing: the first exception ends the computation.\<close>

definition and_then :: "py_error + 'a \<Rightarrow> ('a \<Rightarrow> py_error + 'b) \<Rightarrow> py_error + 'b" where
  "and_then m f = (case m of Inl e \<Rightarrow> Inl e | Inr x \<Rightarrow> f x)"

text \<open>
  A loop that appends one result per element of a list, in order, and ends at the first
  exception.
\<close>

fun for_each :: "('a \<Rightarrow> py_error + 'b) \<Rightarrow> 'a list \<Rightarrow> py_error + 'b list" where
  "for_each f [] = Inr []"
| "for_each f (x # xs) =
     (case f x of
        Inl e \<Rightarrow> Inl e
      | Inr y \<Rightarrow> (case for_each f xs of
                    Inl e \<Rightarrow> Inl e
                  | Inr ys \<Rightarrow> Inr (y # ys)))"

section \<open>Image grid (image_grid.py)\<close>

subsection \<open>Batch normalisation\<close>

text \<open>
  \<open>F.interpolate(img.permute(0, 3, 1, 2), size=(target_height, target_width),
  mode="bilinear", align_corners=False).permute(0, 2, 3, 1)\<close>. The library raises
  \<open>RuntimeError\<close> when the height, the width or the channel count of the input, or the
  requested height or width, is 0; a batch without images is accepted. Otherwise the
  result has the requested height and width, the batch size and the channel count of its
  input. The interpolation kernel belongs to the library and is a parameter \<open>interp\<close>,
  applied to each image of the batch.
\<close>

definition interpolate ::
  "(nat \<Rightarrow> nat \<Rightarrow> image \<Rightarrow> image) \<Rightarrow> nat \<Rightarrow> nat \<Rightarrow> tensor \<Rightarrow> py_error + tensor" where
  "interpolate interp target_height target_width img_batch =
     (if t_height img_batch = 0 \<or> t_width img_batch = 0 \<or> t_channels img_batch = 0
         \<or> target_height = 0 \<or> target_width = 0
      then Inl RuntimeError
      else Inr (img_batch\<lparr>t_height := target_height, t_width := target_width,
                  t_images := map (interp target_height target_width) (t_images img_batch)\<rparr>))"

text \<open>The body of the resize loop of \<open>create_grid\<close>, for one batch.\<close>

definition process_batch ::
  "(nat \<Rightarrow> nat \<Rightarrow> image \<Rightarrow> image) \<Rightarrow> nat \<Rightarrow> nat \<Rightarrow> tensor \<Rightarrow> py_error + tensor" where
  "process_batch interp target_height target_width img_batch =
     (if t_height img_batch \<noteq> target_height \<or> t_width img_batch \<noteq> target_width
      then interpolate interp target_height target_width img_batch
      else Inr img_batch)"

text \<open>
  The input stage of \<open>create_grid\<close> for a list of batches: the reference dimensions come
  from the first batch, every batch goes through the resize loop, and the results are
  concatenated. The list is non-empty where \<open>create_grid\<close> calls it; on an empty list
  \<open>all_images[0]\<close> raises.
\<close>

definition normalize_batches ::
  "(nat \<Rightarrow> nat \<Rightarrow> image \<Rightarrow> image) \<Rightarrow> tensor list \<Rightarrow> py_error + tensor" where
  "normalize_batches interp all_images =
     (case all_images of
        [] \<Rightarrow> Inl IndexError
      | base # _ \<Rightarrow>
          and_then (for_each (process_batch interp (t_height base) (t_width base)) all_images)
            torch_cat)"

subsection \<open>Grid dimensions\<close>

text \<open>
  \<open>math.ceil(math.sqrt(n))\<close>, computed on the naturals: the least \<open>c\<close> with
  \<open>n \<le> c * c\<close>, searched upwards from 0 (at most \<open>n\<close> steps are needed).
\<close>

fun ceil_sqrt_from :: "nat \<Rightarrow> nat \<Rightarrow> nat \<Rightarrow> nat" where
  "ceil_sqrt_from 0 c n = c"
| "ceil_sqrt_from (Suc fuel) c n = (if n \<le> c * c then c else ceil_sqrt_from fuel (Suc c) n)"

definition math_ceil_sqrt :: "nat \<Rightarrow> nat" where
  "math_ceil_sqrt n = ceil_sqrt_from n 0 n"

text \<open>\<open>math.ceil(a / b)\<close>: the true division raises when \<open>b\<close> is 0.\<close>

definition math_ceil_div :: "nat \<Rightarrow> nat \<Rightarrow> py_error + nat" where
  "math_ceil_div a b = (if b = 0 then Inl ZeroDivisionError else Inr ((a + b - 1) div b))"

text \<open>
  The branch on \<open>columns\<close>; the result is \<open>(cols, rows)\<close>. The node declares
  \<open>columns\<close> and \<open>padding\<close> with a minimum of 0, so both are naturals.
\<close>

definition grid_dims :: "nat \<Rightarrow> nat \<Rightarrow> py_error + (nat \<times> nat)" where
  "grid_dims columns batch_size =
     (let cols = (if columns > 0 then columns else math_ceil_sqrt batch_size)
      in case math_ceil_div batch_size cols of
           Inl e \<Rightarrow> Inl e
         | Inr rows \<Rightarrow> Inr (cols, rows))"

text \<open>The output dimensions, on Python's integers.\<close>

definition grid_height :: "nat \<Rightarrow> nat \<Rightarrow> nat \<Rightarrow> int" where
  "grid_height rows target_height padding =
     int rows * int target_height + (int rows - 1) * int padding"

definition grid_width :: "nat \<Rightarrow> nat \<Rightarrow> nat \<Rightarrow> int" where
  "grid_width cols target_width padding =
     int cols * int target_width + (int cols - 1) * int padding"

subsection \<open>Placement\<close>

text \<open>
  The slice bounds of image \<open>idx\<close>, as \<open>(y_start, y_end, x_start, x_end)\<close>.
  \<open>cols\<close> is positive wherever the loop runs (\<open>grid_dims\<close> has divided by it).
\<close>

definition cell_rect :: "nat \<Rightarrow> nat \<Rightarrow> nat \<Rightarrow> nat \<Rightarrow> nat \<Rightarrow> nat \<times> nat \<times> nat \<times> nat" where
  "cell_rect cols target_height target_width padding idx =
     (let row = idx div cols;
          col = idx mod cols;
          y_start = row * (target_height + padding);
          y_end = y_start + target_height;
          x_start = col * (target_width + padding);
          x_end = x_start + target_width
      in (y_start, y_end, x_start, x_end))"

text \<open>The pixels \<open>(y, x)\<close> of a slice \<open>y_start:y_end, x_start:x_end\<close>.\<close>

fun rect_pixels :: "nat \<times> nat \<times> nat \<times> nat \<Rightarrow> (nat \<times> nat) set" where
  "rect_pixels (y_start, y_end, x_start, x_end) = {y_start..<y_end} \<times> {x_start..<x_end}"

text \<open>
  \<open>grid[0, y_start:y_end, x_start:x_end, :] = src\<close>. A slice is clipped to the canvas;
  the assignment raises unless the source has the shape of the clipped slice or
  broadcasts to it (a source dimension of 1).
\<close>

definition slice_assign ::
  "tensor \<Rightarrow> nat \<times> nat \<times> nat \<times> nat \<Rightarrow> nat \<Rightarrow> nat \<Rightarrow> image \<Rightarrow> py_error + tensor" where
  "slice_assign grid rect src_height src_width src =
     (case rect of (y_start, y_end, x_start, x_end) \<Rightarrow>
        let ys = min y_start (t_height grid); ye = min y_end (t_height grid);
            xs = min x_start (t_width grid); xe = min x_end (t_width grid)
        in if (src_height = ye - ys \<or> src_height = 1) \<and> (src_width = xe - xs \<or> src_width = 1)
           then Inr (grid\<lparr>t_images := (t_images grid)[0 :=
                  map (\<lambda>y. map (\<lambda>x.
                         if ys \<le> y \<and> y < ye \<and> xs \<le> x \<and> x < xe
                         then src ! (if src_height = 1 then 0 else y - ys)
                                  ! (if src_width = 1 then 0 else x - xs)
                         else t_images grid ! 0 ! y ! x)
                       [0..<t_width grid])
                    [0..<t_height grid]]\<rparr>)
           else Inl RuntimeError)"

text \<open>The placement loop \<open>for idx in range(batch_size)\<close>, over the list of indices.\<close>

fun place_images ::
  "nat \<Rightarrow> nat \<Rightarrow> nat \<Rightarrow> nat \<Rightarrow> tensor \<Rightarrow> nat list \<Rightarrow> tensor \<Rightarrow> py_error + tensor" where
  "place_images cols target_height target_width padding final_images [] grid = Inr grid"
| "place_images cols target_height target_width padding final_images (idx # idxs) grid =
     (case slice_assign grid (cell_rect cols target_height target_width padding idx)
             target_height target_width (t_images final_images ! idx) of
        Inl e \<Rightarrow> Inl e
      | Inr grid' \<Rightarrow>
          place_images cols target_height target_width padding final_images idxs grid')"

subsection \<open>The node\<close>

text \<open>
  \<open>ImageGrid.create_grid\<close>. The optional inputs \<open>image_1 .. image_6\<close> are a list of
  optional batches, in slot order. \<open>compose_grid\<close> is the part of the body after the
  concatenation, from \<open>batch_size = final_images.shape[0]\<close> on.
\<close>

definition compose_grid :: "nat \<Rightarrow> nat \<Rightarrow> nat \<Rightarrow> nat \<Rightarrow> nat \<Rightarrow> tensor \<Rightarrow> py_error + tensor" where
  "compose_grid columns padding target_height target_width channels final_images =
     (let batch_size = batch_size_of final_images
      in if batch_size = 0
         then Inr (zeros 1 target_height target_width channels)
         else (case grid_dims columns batch_size of
                 Inl e \<Rightarrow> Inl e
               | Inr (cols, rows) \<Rightarrow>
                   (let gh = grid_height rows target_height padding;
                        gw = grid_width cols target_width padding
                    in if gh < 0 \<or> gw < 0 then Inl RuntimeError
                       else place_images cols target_height target_width padding
                              final_images [0..<batch_size]
                              (zeros 1 (nat gh) (nat gw) channels))))"

text \<open>\<open>[img for img in [image_1, ..., image_6] if img is not None]\<close>\<close>

definition collect_images :: "tensor option list \<Rightarrow> tensor list" where
  "collect_images slots = concat (map (\<lambda>s. case s of None \<Rightarrow> [] | Some img \<Rightarrow> [img]) slots)"

definition create_grid ::
  "(nat \<Rightarrow> nat \<Rightarrow> image \<Rightarrow> image) \<Rightarrow> nat \<Rightarrow> nat \<Rightarrow> tensor option list \<Rightarrow> py_error + tensor" where
  "create_grid interp columns padding slots =
     (let all_images = collect_images slots
      in case all_images of
           [] \<Rightarrow> Inr (zeros 1 512 512 3)
         | base # _ \<Rightarrow>
             (case normalize_batches interp all_images of
                Inl e \<Rightarrow> Inl e
              | Inr final_images \<Rightarrow>
                  compose_grid columns padding (t_height base) (t_width base) (t_channels base)
                    final_images))"

text \<open>
  A resampler that repeats the nearest source sample: an instance of the library's
  interpolation, for the examples.
\<close>

definition nearest_interp :: "nat \<Rightarrow> nat \<Rightarrow> image \<Rightarrow> image" where
  "nearest_interp target_height target_width img =
     map (\<lambda>y. map (\<lambda>x. img ! (y * length img div target_height)
                            ! (x * length (img ! 0) div target_width))
                 [0..<target_width])
       [0..<target_height]"

section \<open>Text label (text_label.py)\<close>

subsection \<open>Colours\<close>

text \<open>
  Strings are lists of 8-bit characters, read as the code points 0 to 255.
  \<open>str.strip()\<close> removes the white space of that range from both ends,
  \<open>lstrip("#")\<close> every leading \<open>#\<close>.
\<close>

definition is_space :: "char \<Rightarrow> bool" where
  "is_space c \<longleftrightarrow> (of_char c :: nat) \<in> {9, 10, 11, 12, 13, 28, 29, 30, 31, 32, 133, 160}"

definition strip :: "string \<Rightarrow> string" where
  "strip s = rev (dropWhile is_space (rev (dropWhile is_space s)))"

definition lstrip_hash :: "string \<Rightarrow> string" where
  "lstrip_hash s = dropWhile (\<lambda>c. c = CHR ''#'') s"

definition hex_val :: "char \<Rightarrow> nat option" where
  "hex_val c =
     (let n = (of_char c :: nat)
      in if 48 \<le> n \<and> n \<le> 57 then Some (n - 48)
         else if 97 \<le> n \<and> n \<le> 102 then Some (n - 87)
         else if 65 \<le> n \<and> n \<le> 70 then Some (n - 55)
         else None)"

text \<open>
  \<open>int(s, 16)\<close> on a string: white space around the number is skipped, a sign and a
  prefix \<open>0x\<close> or \<open>0X\<close> are accepted, single underscores may separate digits (one may
  follow the prefix), and anything else raises \<open>ValueError\<close>. \<open>hex_digits\<close> reads
  the digits that follow a digit.
\<close>

fun hex_digits :: "string \<Rightarrow> nat \<Rightarrow> nat option" where
  "hex_digits [] acc = Some acc"
| "hex_digits (c # cs) acc =
     (if c = CHR ''_''
      then (case cs of
              [] \<Rightarrow> None
            | d # ds \<Rightarrow> (case hex_val d of
                           None \<Rightarrow> None
                         | Some v \<Rightarrow> hex_digits ds (16 * acc + v)))
      else (case hex_val c of
              None \<Rightarrow> None
            | Some v \<Rightarrow> hex_digits cs (16 * acc + v)))"

definition py_int16 :: "string \<Rightarrow> py_error + int" where
  "py_int16 s =
     (let s1 = strip s;
          negative = (s1 \<noteq> [] \<and> hd s1 = CHR ''-'');
          s2 = (if s1 \<noteq> [] \<and> (hd s1 = CHR ''-'' \<or> hd s1 = CHR ''+'') then tl s1 else s1);
          s3 = (if take 2 s2 = ''0x'' \<or> take 2 s2 = ''0X''
                then (if take 1 (drop 2 s2) = ''_'' then drop 3 s2 else drop 2 s2)
                else s2)
      in if s3 = [] \<or> hd s3 = CHR ''_'' then Inl ValueError
         else (case hex_digits s3 0 of
                 None \<Rightarrow> Inl ValueError
               | Some v \<Rightarrow> Inr (if negative then - int v else int v)))"

text \<open>\<open>int(x)\<close> on a float: truncation towards zero.\<close>

definition py_int_of_float :: "real \<Rightarrow> int" where
  "py_int_of_float x = (if 0 \<le> x then \<lfloor>x\<rfloor> else \<lceil>x\<rceil>)"

text \<open>\<open>max(0, min(255, int(alpha * 255)))\<close>, the product being that of the floats.\<close>

definition alpha_value :: "float_ops \<Rightarrow> real \<Rightarrow> int" where
  "alpha_value fl alpha = max 0 (min 255 (py_int_of_float (round64 fl (alpha * 255))))"

definition hex_to_rgba ::
  "float_ops \<Rightarrow> string \<Rightarrow> real \<Rightarrow> py_error + (int \<times> int \<times> int \<times> int)" where
  "hex_to_rgba fl hex_color alpha =
     (let hex_color = lstrip_hash (strip hex_color)
      in if length hex_color = 3
         then and_then (py_int16 [hex_color ! 0, hex_color ! 0]) (\<lambda>r.
              and_then (py_int16 [hex_color ! 1, hex_color ! 1]) (\<lambda>g.
              and_then (py_int16 [hex_color ! 2, hex_color ! 2]) (\<lambda>b.
                Inr (r, g, b, alpha_value fl alpha))))
         else if length hex_color = 6
         then and_then (py_int16 (take 2 hex_color)) (\<lambda>r.
              and_then (py_int16 (take 2 (drop 2 hex_color))) (\<lambda>g.
              and_then (py_int16 (take 2 (drop 4 hex_color))) (\<lambda>b.
                Inr (r, g, b, alpha_value fl alpha))))
         else Inr (255, 255, 255, alpha_value fl alpha))"

subsection \<open>Placement of the box\<close>

text \<open>
  \<open>calculate_position\<close>: the dictionary of the five anchors, and
  \<open>positions.get(placement, positions["center"])\<close>. \<open>//\<close> is the floor division of
  the integers, which is \<open>div\<close>.
\<close>

definition calculate_position ::
  "int \<Rightarrow> int \<Rightarrow> int \<Rightarrow> int \<Rightarrow> string \<Rightarrow> int \<Rightarrow> int \<times> int" where
  "calculate_position image_width image_height box_width box_height placement edge_offset =
     (let positions =
            [(''top_left'', (edge_offset, edge_offset)),
             (''top_right'', (image_width - box_width - edge_offset, edge_offset)),
             (''bottom_left'', (edge_offset, image_height - box_height - edge_offset)),
             (''bottom_right'', (image_width - box_width - edge_offset,
                                 image_height - box_height - edge_offset)),
             (''center'', ((image_width - box_width) div 2, (image_height - box_height) div 2))]
      in case map_of positions placement of
           Some xy \<Rightarrow> xy
         | None \<Rightarrow> ((image_width - box_width) div 2, (image_height - box_height) div 2))"

subsection \<open>Fonts\<close>

text \<open>
  The two tables of the module. \<open>win_path\<close> joins the components of a Windows path with
  backslashes.
\<close>

definition win_path :: "string list \<Rightarrow> string" where
  "win_path parts = (case parts of [] \<Rightarrow> [] | p # ps \<Rightarrow> p @ concat (map (\<lambda>q. CHR 0x5C # q) ps))"

definition CUSTOM_FONTS :: "(string \<times> string list) list" where
  "CUSTOM_FONTS =
     [(''Funnel Sans'',
         [''Funnel_Sans/static/FunnelSans-Regular.ttf'', ''FunnelSans-Regular.ttf'']),
      (''Funnel Sans Bold'',
         [''Funnel_Sans/static/FunnelSans-Bold.ttf'', ''FunnelSans-Bold.ttf'']),
      (''Google Sans Code'',
         [''Google_Sans_Code/static/GoogleSansCode-Regular.ttf'', ''GoogleSansCode-Regular.ttf'']),
      (''Google Sans Code Bold'',
         [''Google_Sans_Code/static/GoogleSansCode-Bold.ttf'', ''GoogleSansCode-Bold.ttf'']),
      (''Arial'', [''arial.ttf'', ''Arial.ttf'']),
      (''Arial Bold'', [''arialbd.ttf'', ''Arialbd.ttf'', ''Arial Bold.ttf'']),
      (''Monospace'', [''consola.ttf'', ''Consola.ttf'', ''DejaVuSansMono.ttf''])]"

definition SYSTEM_FONTS :: "(string \<times> string list) list" where
  "SYSTEM_FONTS =
     [(''Arial'',
         [win_path [''C:'', ''Windows'', ''Fonts'', ''arial.ttf''],
          ''/Library/Fonts/Arial.ttf'',
          ''/usr/share/fonts/truetype/msttcorefonts/Arial.ttf'']),
      (''Arial Bold'',
         [win_path [''C:'', ''Windows'', ''Fonts'', ''arialbd.ttf''],
          ''/Library/Fonts/Arial Bold.ttf'',
          ''/usr/share/fonts/truetype/msttcorefonts/Arial_Bold.ttf'']),
      (''Monospace'',
         [win_path [''C:'', ''Windows'', ''Fonts'', ''consola.ttf''],
          ''/Library/Fonts/Menlo.ttc'',
          ''/usr/share/fonts/truetype/dejavu/DejaVuSansMono.ttf''])]"

text \<open>
  What \<open>get_font_paths\<close> reads from the operating system: the directory of the module
  (\<open>os.path.dirname(__file__)\<close>), \<open>platform.system()\<close>, the home directory
  (\<open>os.path.expanduser("~")\<close>) and \<open>os.path.join\<close> on two components.
\<close>

record os_env =
  module_dir :: string
  platform_system :: string
  home_dir :: string
  path_join :: "string \<Rightarrow> string \<Rightarrow> string"

text \<open>\<open>str.lower()\<close> on the code points 0 to 255.\<close>

definition lower_char :: "char \<Rightarrow> char" where
  "lower_char c =
     (let n = (of_char c :: nat)
      in if (65 \<le> n \<and> n \<le> 90) \<or> (192 \<le> n \<and> n \<le> 214) \<or> (216 \<le> n \<and> n \<le> 222)
         then char_of (n + 32) else c)"

definition str_lower :: "string \<Rightarrow> string" where
  "str_lower s = map lower_char s"

definition get_font_paths :: "os_env \<Rightarrow> string \<Rightarrow> string list" where
  "get_font_paths env font_family =
     (let paths = [];
          paths = (case map_of CUSTOM_FONTS font_family of
                     None \<Rightarrow> paths
                   | Some filenames \<Rightarrow>
                       (let local_fonts_dir = path_join env (module_dir env) ''fonts''
                        in paths @ concat (map (\<lambda>fname.
                                     [fname, path_join env local_fonts_dir fname]) filenames)));
          paths = (case map_of SYSTEM_FONTS font_family of
                     None \<Rightarrow> paths
                   | Some system_paths \<Rightarrow> paths @ system_paths);
          paths = (if str_lower (platform_system env) = ''linux''
                   then (let home = home_dir env
                         in paths @
                            [path_join env (path_join env home ''.fonts'') ''DejaVuSansMono.ttf'',
                             path_join env (path_join env (path_join env
                               (path_join env home ''.local'') ''share'') ''fonts'')
                               ''DejaVuSansMono.ttf''])
                   else paths)
      in paths)"

text \<open>
  \<open>load_font\<close>. \<open>truetype\<close> stands for \<open>ImageFont.truetype\<close>, whose exceptions the loop
  catches, and \<open>load_default\<close> for the result of \<open>ImageFont.load_default()\<close>, which is
  called outside the \<open>try\<close>. \<open>try_fonts\<close> is the loop over the candidate paths.
\<close>

fun try_fonts ::
  "(string \<Rightarrow> int \<Rightarrow> py_error + 'font) \<Rightarrow> int \<Rightarrow> py_error + 'font \<Rightarrow> string list
     \<Rightarrow> py_error + 'font" where
  "try_fonts truetype font_size load_default [] = load_default"
| "try_fonts truetype font_size load_default (font_path # font_paths) =
     (case truetype font_path font_size of
        Inr font \<Rightarrow> Inr font
      | Inl e \<Rightarrow> try_fonts truetype font_size load_default font_paths)"

definition load_font ::
  "os_env \<Rightarrow> (string \<Rightarrow> int \<Rightarrow> py_error + 'font) \<Rightarrow> py_error + 'font \<Rightarrow> string \<Rightarrow> int
     \<Rightarrow> py_error + 'font" where
  "load_font env truetype load_default font_family font_size =
     try_fonts truetype font_size load_default (get_font_paths env font_family)"

subsection \<open>Conversion between tensors and 8-bit images\<close>

type_synonym u8 = "8 word"

type_synonym rgba = "int \<times> int \<times> int \<times> int"

text \<open>\<open>numpy.round\<close>: to the nearest integer, a tie to the even one.\<close>

definition round_half_even :: "real \<Rightarrow> int" where
  "round_half_even x =
     (let f = \<lfloor>x\<rfloor>; d = x - of_int f
      in if d < 1 / 2 then f else if 1 / 2 < d then f + 1 else if even f then f else f + 1)"

text \<open>One sample of \<open>(tensor.clamp(0, 1) * 255.0).round().astype(np.uint8)\<close>.\<close>

definition to_uint8 :: "float_ops \<Rightarrow> real \<Rightarrow> u8" where
  "to_uint8 fl v = word_of_int (round_half_even (round32 fl (min 1 (max 0 v) * 255)))"

text \<open>One sample of \<open>np.array(image).astype(np.float32) / 255.0\<close>.\<close>

definition from_uint8 :: "float_ops \<Rightarrow> u8 \<Rightarrow> real" where
  "from_uint8 fl b = round32 fl (real (unat b) / 255)"

text \<open>
  The imaging library: an image type \<open>'img\<close>, a font type \<open>'font\<close> and the functions
  that the module calls, each with its exceptions as values. A drawing function returns
  the image it has drawn on.
\<close>

record ('img, 'font) pil_lib =
  pil_truetype :: "string \<Rightarrow> int \<Rightarrow> py_error + 'font"
  pil_load_default :: "py_error + 'font"
  pil_fromarray :: "u8 list list list \<Rightarrow> py_error + 'img"
  pil_convert :: "'img \<Rightarrow> string \<Rightarrow> py_error + 'img"
  pil_size :: "'img \<Rightarrow> int \<times> int"
  pil_new :: "string \<Rightarrow> int \<times> int \<Rightarrow> rgba \<Rightarrow> py_error + 'img"
  pil_textbbox :: "'img \<Rightarrow> string \<Rightarrow> 'font \<Rightarrow> py_error + (int \<times> int \<times> int \<times> int)"
  pil_textlength :: "'img \<Rightarrow> string \<Rightarrow> 'font \<Rightarrow> py_error + real"
  pil_font_size :: "'font \<Rightarrow> py_error + real"
  pil_rounded_rectangle ::
    "'img \<Rightarrow> int \<times> int \<times> int \<times> int \<Rightarrow> int \<Rightarrow> rgba \<Rightarrow> py_error + 'img"
  pil_alpha_composite :: "'img \<Rightarrow> 'img \<Rightarrow> py_error + 'img"
  pil_multiline_text ::
    "'img \<Rightarrow> int \<times> int \<Rightarrow> string \<Rightarrow> 'font \<Rightarrow> rgba \<Rightarrow> string \<Rightarrow> int \<Rightarrow> rgba \<Rightarrow> py_error + 'img"
  pil_to_array :: "'img \<Rightarrow> u8 list list list"

definition tensor_to_pil ::
  "float_ops \<Rightarrow> ('img, 'font) pil_lib \<Rightarrow> image \<Rightarrow> py_error + 'img" where
  "tensor_to_pil fl pil tensor = pil_fromarray pil (map (map (map (to_uint8 fl))) tensor)"

definition pil_to_tensor :: "float_ops \<Rightarrow> ('img, 'font) pil_lib \<Rightarrow> 'img \<Rightarrow> image" where
  "pil_to_tensor fl pil img = map (map (map (from_uint8 fl))) (pil_to_array pil img)"

subsection \<open>The label renderer\<close>

definition get_text_bbox ::
  "('img, 'font) pil_lib \<Rightarrow> 'img \<Rightarrow> string \<Rightarrow> 'font \<Rightarrow> py_error + (int \<times> int \<times> int \<times> int)" where
  "get_text_bbox pil draw text font =
     (case pil_textbbox pil draw text font of
        Inr bbox \<Rightarrow> Inr bbox
      | Inl e \<Rightarrow>
          and_then (pil_textlength pil draw text font) (\<lambda>len.
          and_then (pil_font_size pil font) (\<lambda>sz.
            Inr (0, 0, py_int_of_float len, py_int_of_float sz))))"

text \<open>The keyword arguments of \<open>add_text_label\<close>, each field named after its argument.\<close>

record label_style =
  st_text :: string
  st_font_family :: string
  st_font_size :: int
  st_text_align :: string
  st_placement :: string
  st_edge_offset :: int
  st_color_scheme :: string
  st_padding :: int
  st_corner_radius :: int
  st_stroke_width :: int
  st_background_opacity :: int

text \<open>The body of the loop over the batch, for one image.\<close>

definition label_image ::
  "float_ops \<Rightarrow> ('img, 'font) pil_lib \<Rightarrow> 'font \<Rightarrow> label_style \<Rightarrow> string \<Rightarrow> string \<Rightarrow> string
     \<Rightarrow> image \<Rightarrow> py_error + image" where
  "label_image fl pil font st text_color bg_color stroke_color tensor =
     and_then (tensor_to_pil fl pil tensor) (\<lambda>converted.
     and_then (pil_convert pil converted ''RGBA'') (\<lambda>pil_image.
     and_then (get_text_bbox pil pil_image (st_text st) font) (\<lambda>(left, top, right, bottom).
       let text_width = right - left;
           text_height = bottom - top;
           box_width = text_width + st_padding st * 2;
           box_height = text_height + st_padding st * 2;
           (x, y) = calculate_position (fst (pil_size pil pil_image)) (snd (pil_size pil pil_image))
                      box_width box_height (st_placement st) (st_edge_offset st)
       in and_then (pil_new pil ''RGBA'' (pil_size pil pil_image) (0, 0, 0, 0)) (\<lambda>overlay.
          let radius = max 0 (min (st_corner_radius st) (min box_width box_height div 2))
          in and_then (hex_to_rgba fl bg_color
                         (round64 fl (real_of_int (st_background_opacity st) / 255))) (\<lambda>fill.
             and_then (pil_rounded_rectangle pil overlay (x, y, x + box_width, y + box_height)
                         radius fill) (\<lambda>overlay.
             and_then (pil_alpha_composite pil pil_image overlay) (\<lambda>pil_image.
               let center_x = round64 fl (real_of_int x + round64 fl (real_of_int box_width / 2));
                   center_y = round64 fl (real_of_int y + round64 fl (real_of_int box_height / 2));
                   text_x = py_int_of_float (round64 fl
                              (round64 fl (center_x - round64 fl (real_of_int text_width / 2))
                               - real_of_int left));
                   text_y = py_int_of_float (round64 fl
                              (round64 fl (center_y - round64 fl (real_of_int text_height / 2))
                               - real_of_int top))
               in and_then (hex_to_rgba fl text_color 1) (\<lambda>fill.
                  and_then (hex_to_rgba fl stroke_color 1) (\<lambda>stroke_fill.
                  and_then (pil_multiline_text pil pil_image (text_x, text_y) (st_text st) font fill
                              (st_text_align st) (st_stroke_width st) stroke_fill) (\<lambda>pil_image.
                  and_then (pil_convert pil pil_image ''RGB'') (\<lambda>rgb.
                    Inr (pil_to_tensor fl pil rgb))))))))))))"

text \<open>
  \<open>torch.stack(output_images, dim=0)\<close>: raises on an empty list and on images of
  different shapes.
\<close>

definition image_shape :: "image \<Rightarrow> nat \<times> nat \<times> nat" where
  "image_shape img =
     (length img,
      (case img of [] \<Rightarrow> 0 | row # _ \<Rightarrow> length row),
      (case img of [] \<Rightarrow> 0 | row # _ \<Rightarrow> (case row of [] \<Rightarrow> 0 | px # _ \<Rightarrow> length px)))"

fun torch_stack :: "image list \<Rightarrow> py_error + tensor" where
  "torch_stack [] = Inl RuntimeError"
| "torch_stack (img # imgs) =
     (if list_all (\<lambda>other. image_shape other = image_shape img) imgs
      then (case image_shape img of (h, w, c) \<Rightarrow>
              Inr \<lparr>t_height = h, t_width = w, t_channels = c, t_images = img # imgs\<rparr>)
      else Inl RuntimeError)"

text \<open>The \<open>image\<close> argument: a tensor of three or of four dimensions.\<close>

datatype image_arg = Tensor3D nat nat nat image | Tensor4D tensor

text \<open>\<open>if image.dim() == 3: image = image.unsqueeze(0)\<close>\<close>

fun ensure_4d :: "image_arg \<Rightarrow> tensor" where
  "ensure_4d (Tensor3D h w c img) =
     \<lparr>t_height = h, t_width = w, t_channels = c, t_images = [img]\<rparr>"
| "ensure_4d (Tensor4D t) = t"

text \<open>\<open>TextLabel.add_text_label\<close>\<close>

definition add_text_label ::
  "float_ops \<Rightarrow> ('img, 'font) pil_lib \<Rightarrow> os_env \<Rightarrow> image_arg \<Rightarrow> label_style
     \<Rightarrow> py_error + tensor" where
  "add_text_label fl pil env image_arg st =
     (let image_batch = ensure_4d image_arg
      in and_then (load_font env (pil_truetype pil) (pil_load_default pil)
                     (st_font_family st) (st_font_size st)) (\<lambda>font.
           let (text_color, bg_color, stroke_color) =
                 (if st_color_scheme st = ''white_on_black''
                  then (''#FFFFFF'', ''#000000'', ''#000000'')
                  else (''#000000'', ''#FFFFFF'', ''#FFFFFF''))
           in and_then (for_each (label_image fl pil font st text_color bg_color stroke_color)
                          (t_images image_batch))
                torch_stack))"

subsection \<open>Instances for the examples\<close>

text \<open>
  A Linux and a Windows environment with \<open>/\<close> as the separator of \<open>os.path.join\<close>, a
  font loader that finds the one file \<open>/pack/fonts/Arial.ttf\<close> (a font is its size), an
  imaging library that converts and measures and draws nothing, and the default
  arguments of \<open>add_text_label\<close> with the text \<open>A\<close>.
\<close>

definition posix_join :: "string \<Rightarrow> string \<Rightarrow> string" where
  "posix_join a b = a @ CHR ''/'' # b"

definition linux_env :: os_env where
  "linux_env = \<lparr>module_dir = ''/pack'', platform_system = ''Linux'', home_dir = ''/home/user'',
                 path_join = posix_join\<rparr>"

definition windows_env :: os_env where
  "windows_env = \<lparr>module_dir = ''/pack'', platform_system = ''Windows'', home_dir = ''/home/user'',
                   path_join = posix_join\<rparr>"

definition bundled_only :: "string \<Rightarrow> int \<Rightarrow> py_error + int" where
  "bundled_only font_path font_size =
     (if font_path = ''/pack/fonts/Arial.ttf'' then Inr font_size else Inl OSError)"

definition passthrough_pil :: "(u8 list list list, int) pil_lib" where
  "passthrough_pil =
     \<lparr>pil_truetype = bundled_only,
      pil_load_default = Inr 10,
      pil_fromarray = Inr,
      pil_convert = (\<lambda>img mode. Inr img),
      pil_size = (\<lambda>img. (int (case img of [] \<Rightarrow> 0 | row # _ \<Rightarrow> length row), int (length img))),
      pil_new = (\<lambda>mode size color. Inr []),
      pil_textbbox = (\<lambda>img text font. Inr (0, 0, int (length text) * font, font)),
      pil_textlength = (\<lambda>img text font. Inr (real (length text) * real_of_int font)),
      pil_font_size = (\<lambda>font. Inr (real_of_int font)),
      pil_rounded_rectangle = (\<lambda>img box radius fill. Inr img),
      pil_alpha_composite = (\<lambda>img overlay. Inr img),
      pil_multiline_text = (\<lambda>img xy text font fill align stroke_width stroke_fill. Inr img),
      pil_to_array = (\<lambda>img. img)\<rparr>"

definition plain_style :: label_style where
  "plain_style =
     \<lparr>st_text = ''A'', st_font_family = ''Arial'', st_font_size = 30, st_text_align = ''center'',
      st_placement = ''top_left'', st_edge_offset = 30, st_color_scheme = ''black_on_white'',
      st_padding = 15, st_corner_radius = 15, st_stroke_width = 0, st_background_opacity = 0\<rparr>"

section \<open>Properties of the image grid\<close>

subsection \<open>Ceilings\<close>

lemma ceil_sqrt_from_spec:
  "(\<forall>d<c. d * d < n) \<Longrightarrow> n \<le> (c + fuel) * (c + fuel) \<Longrightarrow>
   n \<le> ceil_sqrt_from fuel c n * ceil_sqrt_from fuel c n \<and> (\<forall>d<ceil_sqrt_from fuel c n. d * d < n)"
proof (induction fuel arbitrary: c)
  case 0
  then show ?case by simp
next
  case (Suc fuel)
  show ?case
  proof (cases "n \<le> c * c")
    case True
    with Suc.prems show ?thesis by simp
  next
    case False
    have "\<forall>d<Suc c. d * d < n"
      using Suc.prems(1) False by (auto simp: less_Suc_eq)
    moreover have "n \<le> (Suc c + fuel) * (Suc c + fuel)"
      using Suc.prems(2) by simp
    ultimately show ?thesis
      using Suc.IH [of "Suc c"] False by simp
  qed
qed

lemma math_ceil_sqrt_spec:
  "n \<le> math_ceil_sqrt n * math_ceil_sqrt n \<and> (\<forall>d<math_ceil_sqrt n. d * d < n)"
proof -
  have "n \<le> (0 + n) * (0 + n)" by (cases n) auto
  then show ?thesis
    unfolding math_ceil_sqrt_def using ceil_sqrt_from_spec [of 0 n n] by simp
qed

lemma math_ceil_sqrt_real: "int (math_ceil_sqrt n) = \<lceil>sqrt (real n)\<rceil>"
proof -
  define c where "c = math_ceil_sqrt n"
  have up: "n \<le> c * c" and low: "\<forall>d<c. d * d < n"
    using math_ceil_sqrt_spec [of n] by (simp_all add: c_def)
  have "sqrt (real n) \<le> real c"
  proof -
    have "real n \<le> (real c)\<^sup>2" using up by (metis of_nat_le_iff of_nat_mult power2_eq_square)
    then show ?thesis by (simp add: real_le_lsqrt)
  qed
  moreover have "real c - 1 < sqrt (real n)"
  proof (cases c)
    case 0
    have "0 \<le> sqrt (real n)" by simp
    moreover have "real c = 0" using 0 by simp
    ultimately show ?thesis by linarith
  next
    case (Suc d)
    then have "d * d < n" using low by simp
    then have "(real d)\<^sup>2 < real n" by (metis of_nat_less_iff of_nat_mult power2_eq_square)
    then have "real d < sqrt (real n)" by (simp add: real_less_rsqrt)
    then show ?thesis using Suc by simp
  qed
  ultimately have "\<lceil>sqrt (real n)\<rceil> = int c"
    by (intro ceiling_unique) simp_all
  then show ?thesis by (simp add: c_def)
qed

lemma ceil_div_mult_ge:
  fixes a b :: nat
  assumes b: "b > 0"
  shows "a \<le> ((a + b - 1) div b) * b"
proof -
  have "a + b - 1 = ((a + b - 1) div b) * b + (a + b - 1) mod b" by simp
  moreover have "(a + b - 1) mod b < b" using b by simp
  ultimately show ?thesis using b by linarith
qed

lemma ceil_div_mult_lt:
  fixes a b :: nat
  assumes b: "b > 0"
  shows "((a + b - 1) div b) * b < a + b"
proof -
  have "((a + b - 1) div b) * b \<le> a + b - 1" by simp
  then show ?thesis using b by linarith
qed

lemma ceil_div_real:
  fixes a b :: nat
  assumes "b > 0"
  shows "int ((a + b - 1) div b) = \<lceil>real a / real b\<rceil>"
proof -
  define q where "q = (a + b - 1) div b"
  have 1: "a \<le> q * b" using ceil_div_mult_ge [OF assms, of a] by (simp add: q_def)
  have 2: "q * b < a + b" using ceil_div_mult_lt [OF assms, of a] by (simp add: q_def)
  have rb: "0 < real b" using assms by simp
  have "real a \<le> real q * real b" using 1 by (metis of_nat_le_iff of_nat_mult)
  then have up: "real a / real b \<le> real q" using rb by (simp add: pos_divide_le_eq)
  have "real q * real b < real a + real b" using 2 by (metis of_nat_less_iff of_nat_mult of_nat_add)
  then have "(real q - 1) * real b < real a" by (simp add: algebra_simps)
  then have low: "real q - 1 < real a / real b" using rb by (simp add: pos_less_divide_eq)
  have "\<lceil>real a / real b\<rceil> = int q"
    using up low by (intro ceiling_unique) simp_all
  then show ?thesis by (simp add: q_def)
qed

lemma ceil_div_pos:
  fixes a b :: nat
  shows "b > 0 \<Longrightarrow> a > 0 \<Longrightarrow> 0 < (a + b - 1) div b"
  by (simp add: div_greater_zero_iff)

subsection \<open>Cells and canvas\<close>

lemma math_ceil_sqrt_pos: "0 < n \<Longrightarrow> 0 < math_ceil_sqrt n"
  using math_ceil_sqrt_spec [of n] by (cases "math_ceil_sqrt n") auto

lemma grid_dims_Inr:
  fixes columns n :: nat
  assumes "1 \<le> n"
  defines "cols \<equiv> (if columns > 0 then columns else math_ceil_sqrt n)"
  shows "grid_dims columns n = Inr (cols, (n + cols - 1) div cols)"
    and "0 < cols" and "0 < (n + cols - 1) div cols" and "n \<le> ((n + cols - 1) div cols) * cols"
proof -
  show c: "0 < cols" using assms math_ceil_sqrt_pos [of n] by (auto simp: cols_def)
  then show "grid_dims columns n = Inr (cols, (n + cols - 1) div cols)"
    by (simp add: grid_dims_def math_ceil_div_def cols_def Let_def)
  show "0 < (n + cols - 1) div cols" using c assms by (intro ceil_div_pos) simp_all
  show "n \<le> ((n + cols - 1) div cols) * cols" using c by (rule ceil_div_mult_ge)
qed

lemma grid_height_nat:
  "1 \<le> rows \<Longrightarrow> grid_height rows th p = int (rows * th + (rows - 1) * p)"
  by (simp add: grid_height_def of_nat_diff)

lemma grid_width_nat:
  "1 \<le> cols \<Longrightarrow> grid_width cols tw p = int (cols * tw + (cols - 1) * p)"
  by (simp add: grid_width_def of_nat_diff)

lemma cell_bound:
  fixes r k s p :: nat
  assumes "r < k"
  shows "r * (s + p) + s \<le> k * s + (k - 1) * p"
proof -
  have "r \<le> k - 1" using assms by simp
  then have "r * (s + p) \<le> (k - 1) * (s + p)" by (rule mult_le_mono1)
  also have "(k - 1) * (s + p) + s = k * s + (k - 1) * p"
    using assms by (cases k) (simp_all add: algebra_simps)
  finally show ?thesis by simp
qed

lemma cell_apart:
  fixes r r' s p :: nat
  assumes "r < r'"
  shows "r * (s + p) + s \<le> r' * (s + p)"
proof -
  have "Suc r \<le> r'" using assms by simp
  then have "Suc r * (s + p) \<le> r' * (s + p)" by (rule mult_le_mono1)
  then show ?thesis by simp
qed

lemma cells_disjoint:
  assumes "0 < cols" and "idx \<noteq> idx'"
  shows "rect_pixels (cell_rect cols th tw p idx) \<inter> rect_pixels (cell_rect cols th tw p idx') = {}"
proof -
  have "idx div cols \<noteq> idx' div cols \<or> idx mod cols \<noteq> idx' mod cols"
    using assms(2) by (metis div_mult_mod_eq)
  then consider "idx div cols < idx' div cols" | "idx' div cols < idx div cols"
    | "idx mod cols < idx' mod cols" | "idx' mod cols < idx mod cols"
    by linarith
  then show ?thesis
  proof cases
    case 1
    from cell_apart [OF 1, of th p] show ?thesis
      by (auto simp: cell_rect_def Let_def)
  next
    case 2
    from cell_apart [OF 2, of th p] show ?thesis
      by (auto simp: cell_rect_def Let_def)
  next
    case 3
    from cell_apart [OF 3, of tw p] show ?thesis
      by (auto simp: cell_rect_def Let_def)
  next
    case 4
    from cell_apart [OF 4, of tw p] show ?thesis
      by (auto simp: cell_rect_def Let_def)
  qed
qed

lemma cell_in_canvas:
  assumes "0 < cols" and "idx < rows * cols"
  shows "fst (snd (cell_rect cols th tw p idx)) \<le> rows * th + (rows - 1) * p"
    and "snd (snd (snd (cell_rect cols th tw p idx))) \<le> cols * tw + (cols - 1) * p"
proof -
  have r: "idx div cols < rows" using assms by (simp add: less_mult_imp_div_less)
  have c: "idx mod cols < cols" using assms by simp
  show "fst (snd (cell_rect cols th tw p idx)) \<le> rows * th + (rows - 1) * p"
    using cell_bound [OF r, of th p] by (simp add: cell_rect_def Let_def)
  show "snd (snd (snd (cell_rect cols th tw p idx))) \<le> cols * tw + (cols - 1) * p"
    using cell_bound [OF c, of tw p] by (simp add: cell_rect_def Let_def)
qed

subsection \<open>The placement loop\<close>

lemma cell_rect_eq:
  "cell_rect cols th tw p idx =
     (idx div cols * (th + p), idx div cols * (th + p) + th,
      idx mod cols * (tw + p), idx mod cols * (tw + p) + tw)"
  by (simp add: cell_rect_def Let_def)

lemma slice_assign_ok:
  assumes "y0 + sh \<le> t_height grid" and "x0 + sw \<le> t_width grid"
  shows "\<exists>g. slice_assign grid (y0, y0 + sh, x0, x0 + sw) sh sw src = Inr g
           \<and> t_height g = t_height grid \<and> t_width g = t_width grid
           \<and> t_channels g = t_channels grid
           \<and> length (t_images g) = length (t_images grid)"
proof -
  have "min y0 (t_height grid) = y0" "min (y0 + sh) (t_height grid) = y0 + sh"
       "min x0 (t_width grid) = x0" "min (x0 + sw) (t_width grid) = x0 + sw"
    using assms by simp_all
  then show ?thesis by (simp add: slice_assign_def Let_def)
qed

lemma place_images_ok:
  assumes "\<forall>idx\<in>set idxs. idx div cols * (th + p) + th \<le> t_height grid
                         \<and> idx mod cols * (tw + p) + tw \<le> t_width grid"
  shows "\<exists>g. place_images cols th tw p final idxs grid = Inr g
           \<and> t_height g = t_height grid \<and> t_width g = t_width grid
           \<and> t_channels g = t_channels grid
           \<and> length (t_images g) = length (t_images grid)"
  using assms
proof (induction idxs arbitrary: grid)
  case Nil
  then show ?case by simp
next
  case (Cons idx idxs)
  from Cons.prems have here: "idx div cols * (th + p) + th \<le> t_height grid"
    "idx mod cols * (tw + p) + tw \<le> t_width grid" by simp_all
  from slice_assign_ok [OF here, of "t_images final ! idx"]
  obtain g1 where g1: "slice_assign grid (cell_rect cols th tw p idx) th tw (t_images final ! idx) = Inr g1"
    and dims: "t_height g1 = t_height grid" "t_width g1 = t_width grid"
      "t_channels g1 = t_channels grid" "length (t_images g1) = length (t_images grid)"
    by (auto simp: cell_rect_eq)
  have "\<forall>i\<in>set idxs. i div cols * (th + p) + th \<le> t_height g1
                         \<and> i mod cols * (tw + p) + tw \<le> t_width g1"
    using Cons.prems dims by simp
  from Cons.IH [OF this] show ?case using g1 dims by simp
qed

lemma compose_grid_ok:
  fixes columns padding :: nat
  assumes n: "1 \<le> batch_size_of final"
  defines "cols \<equiv> (if columns > 0 then columns else math_ceil_sqrt (batch_size_of final))"
  defines "rows \<equiv> (batch_size_of final + cols - 1) div cols"
  shows "\<exists>g. compose_grid columns padding th tw ch final = Inr g
           \<and> t_height g = rows * th + (rows - 1) * padding
           \<and> t_width g = cols * tw + (cols - 1) * padding
           \<and> t_channels g = ch \<and> length (t_images g) = 1"
proof -
  let ?n = "batch_size_of final"
  have gd: "grid_dims columns ?n = Inr (cols, rows)" and c: "0 < cols" and r: "0 < rows"
    and cover: "?n \<le> rows * cols"
    using grid_dims_Inr [OF n, of columns] by (simp_all add: cols_def rows_def)
  have gh: "grid_height rows th padding = int (rows * th + (rows - 1) * padding)"
    using r by (intro grid_height_nat) simp
  have gw: "grid_width cols tw padding = int (cols * tw + (cols - 1) * padding)"
    using c by (intro grid_width_nat) simp
  let ?grid = "zeros 1 (rows * th + (rows - 1) * padding) (cols * tw + (cols - 1) * padding) ch"
  have "\<forall>idx\<in>set [0..<?n]. idx div cols * (th + padding) + th \<le> t_height ?grid
                         \<and> idx mod cols * (tw + padding) + tw \<le> t_width ?grid"
  proof
    fix idx assume "idx \<in> set [0..<?n]"
    then have "idx < rows * cols" using cover by simp
    from cell_in_canvas [OF c this, where th=th and p=padding and tw=tw]
    show "idx div cols * (th + padding) + th \<le> t_height ?grid
                         \<and> idx mod cols * (tw + padding) + tw \<le> t_width ?grid"
      by (simp add: cell_rect_eq zeros_def)
  qed
  from place_images_ok [OF this, of final]
  obtain g where "place_images cols th tw padding final [0..<?n] ?grid = Inr g"
    and "t_height g = t_height ?grid" "t_width g = t_width ?grid"
      "t_channels g = t_channels ?grid" "length (t_images g) = length (t_images ?grid)"
    by blast
  moreover have "nat (grid_height rows th padding) = rows * th + (rows - 1) * padding"
    unfolding gh by (rule nat_int)
  moreover have "nat (grid_width cols tw padding) = cols * tw + (cols - 1) * padding"
    unfolding gw by (rule nat_int)
  moreover have "\<not> grid_height rows th padding < 0"
    unfolding gh by (simp only: of_nat_less_0_iff not_False_eq_True)
  moreover have "\<not> grid_width cols tw padding < 0"
    unfolding gw by (simp only: of_nat_less_0_iff not_False_eq_True)
  ultimately show ?thesis
    using n gd by (simp add: compose_grid_def Let_def zeros_def)
qed

lemma in_cell_iff:
  "(y, x) \<in> rect_pixels (cell_rect cols th tw p idx) \<longleftrightarrow>
     idx div cols * (th + p) \<le> y \<and> y < idx div cols * (th + p) + th
     \<and> idx mod cols * (tw + p) \<le> x \<and> x < idx mod cols * (tw + p) + tw"
  by (simp add: cell_rect_eq)

lemma slice_assign_pixels:
  assumes fit: "y0 + sh \<le> t_height grid" "x0 + sw \<le> t_width grid"
    and ne: "t_images grid \<noteq> []"
  shows "\<exists>g. slice_assign grid (y0, y0 + sh, x0, x0 + sw) sh sw src = Inr g
           \<and> t_height g = t_height grid \<and> t_width g = t_width grid
           \<and> t_channels g = t_channels grid
           \<and> length (t_images g) = length (t_images grid)
           \<and> length (t_images g ! 0) = t_height grid
           \<and> (\<forall>y<t_height grid. length (t_images g ! 0 ! y) = t_width grid)
           \<and> (\<forall>y<t_height grid. \<forall>x<t_width grid.
                 t_images g ! 0 ! y ! x =
                   (if y0 \<le> y \<and> y < y0 + sh \<and> x0 \<le> x \<and> x < x0 + sw
                    then src ! (y - y0) ! (x - x0)
                    else t_images grid ! 0 ! y ! x))"
proof -
  have m: "min y0 (t_height grid) = y0" "min (y0 + sh) (t_height grid) = y0 + sh"
       "min x0 (t_width grid) = x0" "min (x0 + sw) (t_width grid) = x0 + sw"
    using fit by simp_all
  have pos: "0 < length (t_images grid)" using ne by simp
  let ?new = "map (\<lambda>y. map (\<lambda>x.
                 if y0 \<le> y \<and> y < y0 + sh \<and> x0 \<le> x \<and> x < x0 + sw
                 then src ! (if sh = 1 then 0 else y - y0) ! (if sw = 1 then 0 else x - x0)
                 else t_images grid ! 0 ! y ! x)
               [0..<t_width grid])
            [0..<t_height grid]"
  have res: "slice_assign grid (y0, y0 + sh, x0, x0 + sw) sh sw src =
               Inr (grid\<lparr>t_images := (t_images grid)[0 := ?new]\<rparr>)"
    unfolding slice_assign_def prod.case Let_def m by simp
  have nth0: "(t_images grid)[0 := ?new] ! 0 = ?new" using pos by simp
  have px: "\<forall>y<t_height grid. \<forall>x<t_width grid.
              ?new ! y ! x =
                (if y0 \<le> y \<and> y < y0 + sh \<and> x0 \<le> x \<and> x < x0 + sw
                 then src ! (y - y0) ! (x - x0)
                 else t_images grid ! 0 ! y ! x)"
  proof (intro allI impI)
    fix y x assume y: "y < t_height grid" and x: "x < t_width grid"
    have a: "sh = 1 \<Longrightarrow> y0 \<le> y \<Longrightarrow> y < y0 + sh \<Longrightarrow> y - y0 = 0" by simp
    have b: "sw = 1 \<Longrightarrow> x0 \<le> x \<Longrightarrow> x < x0 + sw \<Longrightarrow> x - x0 = 0" by simp
    show "?new ! y ! x =
            (if y0 \<le> y \<and> y < y0 + sh \<and> x0 \<le> x \<and> x < x0 + sw
             then src ! (y - y0) ! (x - x0)
             else t_images grid ! 0 ! y ! x)"
      using y x a b by (auto simp: nth_map)
  qed
  have len: "length ?new = t_height grid" by simp
  have rows: "\<forall>y<t_height grid. length (?new ! y) = t_width grid" by simp
  show ?thesis
    unfolding res using nth0 px len rows by (simp del: upt_Suc)
qed

lemma place_images_pixels:
  assumes fit: "\<forall>idx\<in>set idxs. idx div cols * (th + p) + th \<le> t_height grid
                         \<and> idx mod cols * (tw + p) + tw \<le> t_width grid"
    and dist: "distinct idxs" and cols: "0 < cols" and ne: "t_images grid \<noteq> []"
    and wf: "length (t_images grid ! 0) = t_height grid"
            "\<forall>y<t_height grid. length (t_images grid ! 0 ! y) = t_width grid"
  shows "\<exists>g. place_images cols th tw p final idxs grid = Inr g
           \<and> t_height g = t_height grid \<and> t_width g = t_width grid
           \<and> t_channels g = t_channels grid
           \<and> length (t_images g) = length (t_images grid)
           \<and> length (t_images g ! 0) = t_height grid
           \<and> (\<forall>y<t_height grid. length (t_images g ! 0 ! y) = t_width grid)
           \<and> (\<forall>y<t_height grid. \<forall>x<t_width grid.
                 (\<forall>idx\<in>set idxs. (y, x) \<notin> rect_pixels (cell_rect cols th tw p idx)) \<longrightarrow>
                 t_images g ! 0 ! y ! x = t_images grid ! 0 ! y ! x)
           \<and> (\<forall>idx\<in>set idxs. \<forall>y<t_height grid. \<forall>x<t_width grid.
                 (y, x) \<in> rect_pixels (cell_rect cols th tw p idx) \<longrightarrow>
                 t_images g ! 0 ! y ! x =
                   t_images final ! idx ! (y - idx div cols * (th + p))
                                       ! (x - idx mod cols * (tw + p)))"
  using fit dist ne wf
proof (induction idxs arbitrary: grid)
  case Nil
  then show ?case by simp
next
  case (Cons i rest)
  let ?H = "t_height grid" and ?W = "t_width grid"
  let ?R = "\<lambda>idx. rect_pixels (cell_rect cols th tw p idx)"
  let ?src = "\<lambda>idx y x. t_images final ! idx ! (y - idx div cols * (th + p))
                                       ! (x - idx mod cols * (tw + p))"
  from Cons.prems(1) have here: "i div cols * (th + p) + th \<le> ?H"
    "i mod cols * (tw + p) + tw \<le> ?W" by simp_all
  from slice_assign_pixels [OF here Cons.prems(3), of "t_images final ! i"]
  obtain g1 where g1: "slice_assign grid (cell_rect cols th tw p i) th tw (t_images final ! i) = Inr g1"
    and d1: "t_height g1 = ?H" "t_width g1 = ?W" "t_channels g1 = t_channels grid"
      "length (t_images g1) = length (t_images grid)"
    and wf1: "length (t_images g1 ! 0) = ?H" "\<forall>y<?H. length (t_images g1 ! 0 ! y) = ?W"
    and px1: "\<forall>y<?H. \<forall>x<?W. t_images g1 ! 0 ! y ! x =
                (if (y, x) \<in> ?R i then ?src i y x else t_images grid ! 0 ! y ! x)"
    unfolding in_cell_iff by (auto simp: cell_rect_eq)
  have fit1: "\<forall>idx\<in>set rest. idx div cols * (th + p) + th \<le> t_height g1
                         \<and> idx mod cols * (tw + p) + tw \<le> t_width g1"
    using Cons.prems(1) d1 by simp
  have dist1: "distinct rest" using Cons.prems(2) by simp
  have ne1: "t_images g1 \<noteq> []" using Cons.prems(3) d1(4) by auto
  have wf1': "length (t_images g1 ! 0) = t_height g1"
    "\<forall>y<t_height g1. length (t_images g1 ! 0 ! y) = t_width g1"
    using wf1 d1 by simp_all
  from Cons.IH [OF fit1 dist1 ne1 wf1']
  obtain g where g: "place_images cols th tw p final rest g1 = Inr g"
    and d: "t_height g = ?H" "t_width g = ?W" "t_channels g = t_channels grid"
      "length (t_images g) = length (t_images grid)"
    and wfg: "length (t_images g ! 0) = ?H" "\<forall>y<?H. length (t_images g ! 0 ! y) = ?W"
    and keep: "\<forall>y<?H. \<forall>x<?W. (\<forall>idx\<in>set rest. (y, x) \<notin> ?R idx) \<longrightarrow>
                 t_images g ! 0 ! y ! x = t_images g1 ! 0 ! y ! x"
    and put: "\<forall>idx\<in>set rest. \<forall>y<?H. \<forall>x<?W. (y, x) \<in> ?R idx \<longrightarrow>
                 t_images g ! 0 ! y ! x = ?src idx y x"
    using d1 by auto
  have res: "place_images cols th tw p final (i # rest) grid = Inr g"
    using g1 g by simp
  have A: "\<forall>y<?H. \<forall>x<?W. (\<forall>idx\<in>set (i # rest). (y, x) \<notin> ?R idx) \<longrightarrow>
                 t_images g ! 0 ! y ! x = t_images grid ! 0 ! y ! x"
    using keep px1 by simp
  have B: "\<forall>idx\<in>set (i # rest). \<forall>y<?H. \<forall>x<?W. (y, x) \<in> ?R idx \<longrightarrow>
                 t_images g ! 0 ! y ! x = ?src idx y x"
  proof (intro ballI allI impI)
    fix idx y x
    assume idx: "idx \<in> set (i # rest)" and y: "y < ?H" and x: "x < ?W" and inR: "(y, x) \<in> ?R idx"
    show "t_images g ! 0 ! y ! x = ?src idx y x"
    proof (cases "idx \<in> set rest")
      case True
      with put y x inR show ?thesis by blast
    next
      case False
      with idx have eq: "idx = i" by simp
      have "\<forall>k\<in>set rest. (y, x) \<notin> ?R k"
      proof
        fix k assume k: "k \<in> set rest"
        then have "k \<noteq> i" using Cons.prems(2) by auto
        from cells_disjoint [OF cols this, of th tw p] inR eq
        show "(y, x) \<notin> ?R k" by blast
      qed
      with keep y x have "t_images g ! 0 ! y ! x = t_images g1 ! 0 ! y ! x" by blast
      also have "\<dots> = ?src i y x" using px1 y x inR eq by simp
      finally show ?thesis using eq by simp
    qed
  qed
  show ?case using res d wfg A B by blast
qed

lemma compose_grid_pixels:
  fixes columns padding :: nat
  assumes n: "1 \<le> batch_size_of final"
  defines "cols \<equiv> (if columns > 0 then columns else math_ceil_sqrt (batch_size_of final))"
  defines "rows \<equiv> (batch_size_of final + cols - 1) div cols"
  shows "\<exists>g canvas. compose_grid columns padding th tw ch final = Inr g
           \<and> t_height g = rows * th + (rows - 1) * padding
           \<and> t_width g = cols * tw + (cols - 1) * padding
           \<and> t_channels g = ch \<and> t_images g = [canvas]
           \<and> length canvas = rows * th + (rows - 1) * padding
           \<and> (\<forall>y<length canvas. length (canvas ! y) = cols * tw + (cols - 1) * padding)
           \<and> (\<forall>idx<batch_size_of final. \<forall>dy<th. \<forall>dx<tw.
                 canvas ! (idx div cols * (th + padding) + dy)
                        ! (idx mod cols * (tw + padding) + dx)
                   = t_images final ! idx ! dy ! dx)"
proof -
  let ?n = "batch_size_of final"
  let ?H = "rows * th + (rows - 1) * padding" and ?W = "cols * tw + (cols - 1) * padding"
  have gd: "grid_dims columns ?n = Inr (cols, rows)" and c: "0 < cols" and r: "0 < rows"
    and cover: "?n \<le> rows * cols"
    using grid_dims_Inr [OF n, of columns] by (simp_all add: cols_def rows_def)
  have gh: "grid_height rows th padding = int ?H"
    using r by (intro grid_height_nat) simp
  have gw: "grid_width cols tw padding = int ?W"
    using c by (intro grid_width_nat) simp
  let ?grid = "zeros 1 ?H ?W ch"
  have dims: "t_height ?grid = ?H" "t_width ?grid = ?W" "t_channels ?grid = ch"
    by (simp_all add: zeros_def)
  have fit0: "\<forall>idx<?n. idx div cols * (th + padding) + th \<le> ?H
                    \<and> idx mod cols * (tw + padding) + tw \<le> ?W"
  proof (intro allI impI)
    fix idx assume "idx < ?n"
    then have "idx < rows * cols" using cover by simp
    from cell_in_canvas [OF c this, where th=th and p=padding and tw=tw]
    show "idx div cols * (th + padding) + th \<le> ?H
            \<and> idx mod cols * (tw + padding) + tw \<le> ?W"
      by (simp add: cell_rect_eq)
  qed
  have fit: "\<forall>idx\<in>set [0..<?n]. idx div cols * (th + padding) + th \<le> t_height ?grid
                         \<and> idx mod cols * (tw + padding) + tw \<le> t_width ?grid"
    unfolding dims using fit0 by simp
  have ne: "t_images ?grid \<noteq> []" by (simp add: zeros_def)
  have wf: "length (t_images ?grid ! 0) = t_height ?grid"
    "\<forall>y<t_height ?grid. length (t_images ?grid ! 0 ! y) = t_width ?grid"
    by (simp_all add: zeros_def zeros_image_def)
  have dist: "distinct [0..<?n]" by simp
  from place_images_pixels [OF fit dist c ne wf, of final]
  obtain g where pl: "place_images cols th tw padding final [0..<?n] ?grid = Inr g"
    and d: "t_height g = ?H" "t_width g = ?W" "t_channels g = ch"
    and len: "length (t_images g) = 1"
    and wfg: "length (t_images g ! 0) = ?H" "\<forall>y<?H. length (t_images g ! 0 ! y) = ?W"
    and put: "\<forall>idx\<in>set [0..<?n]. \<forall>y<?H. \<forall>x<?W.
                 (y, x) \<in> rect_pixels (cell_rect cols th tw padding idx) \<longrightarrow>
                 t_images g ! 0 ! y ! x =
                   t_images final ! idx ! (y - idx div cols * (th + padding))
                                       ! (x - idx mod cols * (tw + padding))"
    unfolding dims by (auto simp: zeros_def)
  have one: "t_images g = [t_images g ! 0]"
    using len by (cases "t_images g") simp_all
  have px: "\<forall>idx<?n. \<forall>dy<th. \<forall>dx<tw.
              t_images g ! 0 ! (idx div cols * (th + padding) + dy)
                             ! (idx mod cols * (tw + padding) + dx)
                = t_images final ! idx ! dy ! dx"
  proof (intro allI impI)
    fix idx dy dx assume idx: "idx < ?n" and dy: "dy < th" and dx: "dx < tw"
    let ?y = "idx div cols * (th + padding) + dy" and ?x = "idx mod cols * (tw + padding) + dx"
    from fit0 idx have b: "idx div cols * (th + padding) + th \<le> ?H"
      "idx mod cols * (tw + padding) + tw \<le> ?W" by simp_all
    have y: "?y < ?H" and x: "?x < ?W" using b dy dx by simp_all
    have inR: "(?y, ?x) \<in> rect_pixels (cell_rect cols th tw padding idx)"
      using dy dx by (simp add: in_cell_iff)
    from put idx y x inR
    have "t_images g ! 0 ! ?y ! ?x =
            t_images final ! idx ! (?y - idx div cols * (th + padding))
                                 ! (?x - idx mod cols * (tw + padding))"
      by simp
    then show "t_images g ! 0 ! ?y ! ?x = t_images final ! idx ! dy ! dx" by simp
  qed
  have ngh: "nat (grid_height rows th padding) = ?H" unfolding gh by (rule nat_int)
  have ngw: "nat (grid_width cols tw padding) = ?W" unfolding gw by (rule nat_int)
  have pgh: "\<not> grid_height rows th padding < 0"
    unfolding gh by (simp only: of_nat_less_0_iff not_False_eq_True)
  have pgw: "\<not> grid_width cols tw padding < 0"
    unfolding gw by (simp only: of_nat_less_0_iff not_False_eq_True)
  have cg: "compose_grid columns padding th tw ch final = Inr g"
    using n gd pl ngh ngw pgh pgw by (simp add: compose_grid_def Let_def)
  show ?thesis
    using cg d one wfg px by (intro exI [of _ g] exI [of _ "t_images g ! 0"]) simp
qed

subsection \<open>Grid dimensions and canvas size\<close>

text \<open>
  C1. For a concatenated batch of \<open>n \<ge> 1\<close> images: with \<open>columns > 0\<close> the grid has
  \<open>cols = columns\<close>, with \<open>columns = 0\<close> it has \<open>cols = ceil(sqrt(n))\<close>; in both cases
  \<open>rows = ceil(n / cols)\<close>; \<open>create_grid\<close> returns a canvas of width
  \<open>cols * w + (cols - 1) * padding\<close> and height \<open>rows * h + (rows - 1) * padding\<close>, where
  \<open>h\<close> and \<open>w\<close> are the height and width of the first batch. The square root and the
  quotient are those of the reals.
\<close>

theorem grid_dimensions:
  fixes columns padding n :: nat
  assumes "collect_images slots = base # rest"
    and "normalize_batches interp (base # rest) = Inr final_images"
    and "batch_size_of final_images = n" and "1 \<le> n"
  shows "\<exists>cols rows g.
      grid_dims columns n = Inr (cols, rows)
    \<and> (0 < columns \<longrightarrow> cols = columns)
    \<and> (columns = 0 \<longrightarrow> int cols = \<lceil>sqrt (real n)\<rceil>)
    \<and> int rows = \<lceil>real n / real cols\<rceil>
    \<and> create_grid interp columns padding slots = Inr g
    \<and> int (t_width g) = int cols * int (t_width base) + (int cols - 1) * int padding
    \<and> int (t_height g) = int rows * int (t_height base) + (int rows - 1) * int padding"
proof -
  define cols where "cols = (if columns > 0 then columns else math_ceil_sqrt n)"
  define rows where "rows = (n + cols - 1) div cols"
  have n1: "1 \<le> batch_size_of final_images" using assms by simp
  have gd: "grid_dims columns n = Inr (cols, rows)" and c: "0 < cols" and r: "0 < rows"
    using grid_dims_Inr [OF assms(4), of columns] by (simp_all add: cols_def rows_def)
  from compose_grid_ok [OF n1, of columns padding "t_height base" "t_width base" "t_channels base"]
  obtain g where g: "compose_grid columns padding (t_height base) (t_width base) (t_channels base)
        final_images = Inr g"
    and h: "t_height g = rows * t_height base + (rows - 1) * padding"
    and w: "t_width g = cols * t_width base + (cols - 1) * padding"
    using assms(3) by (auto simp: cols_def rows_def)
  have cg: "create_grid interp columns padding slots = Inr g"
    using assms(1,2) g by (simp add: create_grid_def)
  have "int (t_width g) = int cols * int (t_width base) + (int cols - 1) * int padding"
    using w c by (simp add: of_nat_diff)
  moreover have "int (t_height g) = int rows * int (t_height base) + (int rows - 1) * int padding"
    using h r by (simp add: of_nat_diff)
  moreover have "int rows = \<lceil>real n / real cols\<rceil>"
    unfolding rows_def using c by (rule ceil_div_real)
  moreover have "columns = 0 \<longrightarrow> int cols = \<lceil>sqrt (real n)\<rceil>"
    by (simp add: cols_def math_ceil_sqrt_real)
  moreover have "0 < columns \<longrightarrow> cols = columns" by (simp add: cols_def)
  ultimately show ?thesis using gd cg by blast
qed

theorem grid_dimensions_witness:
  "\<exists>g. create_grid nearest_interp 0 2
          [Some \<lparr>t_height = 2, t_width = 3, t_channels = 1,
                 t_images = replicate 10 (zeros_image 2 3 1)\<rparr>, None] = Inr g
       \<and> t_width g = 18 \<and> t_height g = 10
       \<and> grid_dims 0 10 = Inr (4, 3) \<and> \<lceil>sqrt (real 10)\<rceil> = 4 \<and> \<lceil>real 10 / real 4\<rceil> = 3"
proof -
  let ?b = "\<lparr>t_height = 2, t_width = 3, t_channels = 1,
                 t_images = replicate 10 (zeros_image 2 3 1)\<rparr>"
  have s: "collect_images [Some ?b, None] = ?b # []" by (simp add: collect_images_def)
  have nb: "normalize_batches nearest_interp (?b # []) = Inr ?b"
    by (simp add: normalize_batches_def process_batch_def and_then_def)
  have bs: "batch_size_of ?b = 10" by (simp add: batch_size_of_def)
  have n: "(1::nat) \<le> 10" by simp
  have d: "grid_dims 0 10 = Inr (4, 3)" by code_simp
  from grid_dimensions [OF s nb bs n, of 0 2]
  obtain cols rows g where "grid_dims 0 10 = Inr (cols, rows)"
    and sq: "int cols = \<lceil>sqrt (real 10)\<rceil>" and dv: "int rows = \<lceil>real 10 / real cols\<rceil>"
    and cg: "create_grid nearest_interp 0 2 [Some ?b, None] = Inr g"
    and w: "int (t_width g) = int cols * int (t_width ?b) + (int cols - 1) * int 2"
    and h: "int (t_height g) = int rows * int (t_height ?b) + (int rows - 1) * int 2"
    by auto
  with d have cr: "cols = 4" "rows = 3" by simp_all
  have "t_width g = 18" using w cr by simp
  moreover have "t_height g = 10" using h cr by simp
  moreover have "\<lceil>sqrt (real 10)\<rceil> = 4" using sq cr by simp
  moreover have "\<lceil>real 10 / real 4\<rceil> = 3" using dv cr by simp
  ultimately show ?thesis using cg d by blast
qed

subsection \<open>Placement of the cells\<close>

text \<open>
  C2. For \<open>n \<ge> 1\<close> concatenated images and every index \<open>idx < n\<close>, \<open>create_grid\<close>
  returns a canvas in which image \<open>idx\<close> has its top-left corner at
  \<open>x = (idx mod cols) * (w + padding)\<close>, \<open>y = (idx div cols) * (h + padding)\<close>: every pixel
  \<open>(dy, dx)\<close> of the image is the pixel \<open>(y + dy, x + dx)\<close> of the canvas. The rectangle
  is \<open>w\<close> wide and \<open>h\<close> high, ends inside the canvas (no clipping), and shares no pixel
  with the rectangle of any other index below \<open>n\<close>.
\<close>

theorem cell_placement:
  fixes columns padding n idx :: nat
  assumes "collect_images slots = base # rest"
    and "normalize_batches interp (base # rest) = Inr final_images"
    and "batch_size_of final_images = n" and "idx < n"
  shows "\<exists>cols rows g canvas.
      grid_dims columns n = Inr (cols, rows)
    \<and> create_grid interp columns padding slots = Inr g \<and> t_images g = [canvas]
    \<and> length canvas = t_height g \<and> (\<forall>y<length canvas. length (canvas ! y) = t_width g)
    \<and> (case cell_rect cols (t_height base) (t_width base) padding idx of
          (y_start, y_end, x_start, x_end) \<Rightarrow>
            x_start = (idx mod cols) * (t_width base + padding)
          \<and> y_start = (idx div cols) * (t_height base + padding)
          \<and> x_end = x_start + t_width base \<and> y_end = y_start + t_height base
          \<and> x_end \<le> t_width g \<and> y_end \<le> t_height g
          \<and> (\<forall>dy<t_height base. \<forall>dx<t_width base.
                canvas ! (y_start + dy) ! (x_start + dx) = t_images final_images ! idx ! dy ! dx))
    \<and> (\<forall>idx'<n. idx' \<noteq> idx \<longrightarrow>
          rect_pixels (cell_rect cols (t_height base) (t_width base) padding idx)
            \<inter> rect_pixels (cell_rect cols (t_height base) (t_width base) padding idx') = {})"
proof -
  let ?th = "t_height base" and ?tw = "t_width base"
  define cols where "cols = (if columns > 0 then columns else math_ceil_sqrt n)"
  define rows where "rows = (n + cols - 1) div cols"
  have n1: "1 \<le> n" using assms(4) by simp
  have n1': "1 \<le> batch_size_of final_images" using n1 assms(3) by simp
  have gd: "grid_dims columns n = Inr (cols, rows)" and c: "0 < cols" and r: "0 < rows"
    and cover: "n \<le> rows * cols"
    using grid_dims_Inr [OF n1, of columns] by (simp_all add: cols_def rows_def)
  from compose_grid_pixels [OF n1', of columns padding ?th ?tw "t_channels base"]
  obtain g canvas where g: "compose_grid columns padding ?th ?tw (t_channels base)
        final_images = Inr g"
    and h: "t_height g = rows * ?th + (rows - 1) * padding"
    and w: "t_width g = cols * ?tw + (cols - 1) * padding"
    and one: "t_images g = [canvas]"
    and len: "length canvas = rows * ?th + (rows - 1) * padding"
    and rowlen: "\<forall>y<length canvas. length (canvas ! y) = cols * ?tw + (cols - 1) * padding"
    and px: "\<forall>i<n. \<forall>dy<?th. \<forall>dx<?tw.
                 canvas ! (i div cols * (?th + padding) + dy) ! (i mod cols * (?tw + padding) + dx)
                   = t_images final_images ! i ! dy ! dx"
    using assms(3) unfolding cols_def rows_def by blast
  have cg: "create_grid interp columns padding slots = Inr g"
    using assms(1,2) g by (simp add: create_grid_def)
  have lt: "idx < rows * cols" using assms(4) cover by simp
  have inside: "idx div cols * (?th + padding) + ?th \<le> t_height g"
    "idx mod cols * (?tw + padding) + ?tw \<le> t_width g"
    using cell_in_canvas [OF c lt, where th="?th" and p=padding and tw="?tw"] h w
    by (simp_all add: cell_rect_eq)
  have cell: "(case cell_rect cols ?th ?tw padding idx of
          (y_start, y_end, x_start, x_end) \<Rightarrow>
            x_start = (idx mod cols) * (?tw + padding)
          \<and> y_start = (idx div cols) * (?th + padding)
          \<and> x_end = x_start + ?tw \<and> y_end = y_start + ?th
          \<and> x_end \<le> t_width g \<and> y_end \<le> t_height g
          \<and> (\<forall>dy<?th. \<forall>dx<?tw.
                canvas ! (y_start + dy) ! (x_start + dx) = t_images final_images ! idx ! dy ! dx))"
    unfolding cell_rect_eq prod.case using inside px assms(4) by simp
  have disj: "\<forall>idx'<n. idx' \<noteq> idx \<longrightarrow>
          rect_pixels (cell_rect cols ?th ?tw padding idx)
            \<inter> rect_pixels (cell_rect cols ?th ?tw padding idx') = {}"
    using cells_disjoint [OF c] by blast
  have shape: "length canvas = t_height g" "\<forall>y<length canvas. length (canvas ! y) = t_width g"
    using len rowlen h w by simp_all
  show ?thesis
    by (rule exI [of _ cols], rule exI [of _ rows], rule exI [of _ g], rule exI [of _ canvas])
       (intro conjI gd cg one shape cell disj)
qed

theorem cell_placement_witness:
  "\<exists>g canvas.
     create_grid nearest_interp 2 1
       [Some \<lparr>t_height = 1, t_width = 2, t_channels = 1,
              t_images = [[[[1], [2]]], [[[3], [4]]], [[[5], [6]]]]\<rparr>] = Inr g
   \<and> t_images g = [canvas]
   \<and> grid_dims 2 3 = Inr (2, 2)
   \<and> cell_rect 2 1 2 1 2 = (2, 3, 0, 2)
   \<and> 2 \<le> t_width g \<and> 3 \<le> t_height g
   \<and> canvas ! 2 ! 0 = [5] \<and> canvas ! 2 ! 1 = [6]
   \<and> rect_pixels (cell_rect 2 1 2 1 2) \<inter> rect_pixels (cell_rect 2 1 2 1 0) = {}"
proof -
  let ?b = "\<lparr>t_height = 1, t_width = 2, t_channels = 1,
              t_images = [[[[1], [2]]], [[[3], [4]]], [[[5::real], [6]]]]\<rparr>"
  have s: "collect_images [Some ?b] = ?b # []" by (simp add: collect_images_def)
  have nb: "normalize_batches nearest_interp (?b # []) = Inr ?b"
    by (simp add: normalize_batches_def process_batch_def and_then_def)
  have bs: "batch_size_of ?b = 3" by (simp add: batch_size_of_def)
  have i: "(2::nat) < 3" by simp
  have d: "grid_dims 2 3 = Inr (2, 2)" by code_simp
  have c: "cell_rect 2 1 2 1 2 = (2, 3, 0, 2)" by (simp add: cell_rect_def Let_def)
  from cell_placement [OF s nb bs i, of 2 1] show ?thesis
  proof (elim exE conjE)
    fix cols rows g canvas
    assume gd: "grid_dims 2 3 = Inr (cols, rows)"
      and cg: "create_grid nearest_interp 2 1 [Some ?b] = Inr g"
      and one: "t_images g = [canvas]"
      and cell: "(case cell_rect cols (t_height ?b) (t_width ?b) 1 2 of
          (y_start, y_end, x_start, x_end) \<Rightarrow>
            x_start = (2 mod cols) * (t_width ?b + 1)
          \<and> y_start = (2 div cols) * (t_height ?b + 1)
          \<and> x_end = x_start + t_width ?b \<and> y_end = y_start + t_height ?b
          \<and> x_end \<le> t_width g \<and> y_end \<le> t_height g
          \<and> (\<forall>dy<t_height ?b. \<forall>dx<t_width ?b.
                canvas ! (y_start + dy) ! (x_start + dx) = t_images ?b ! 2 ! dy ! dx))"
      and disj: "\<forall>idx'<3. idx' \<noteq> 2 \<longrightarrow>
          rect_pixels (cell_rect cols (t_height ?b) (t_width ?b) 1 2)
            \<inter> rect_pixels (cell_rect cols (t_height ?b) (t_width ?b) 1 idx') = {}"
    from gd d have cols: "cols = 2" by simp
    from cell have inside: "2 \<le> t_width g" "3 \<le> t_height g"
      and px: "\<forall>dx<2. canvas ! Suc (Suc 0) ! dx = [[5], [6]] ! dx"
      unfolding cols cell_rect_eq prod.case by simp_all
    from px [rule_format, of 0] have p0: "canvas ! 2 ! 0 = [5]"
      by (simp add: numeral_2_eq_2)
    from px [rule_format, of 1] have p1: "canvas ! 2 ! 1 = [6]"
      by (simp add: numeral_2_eq_2)
    have "(0::nat) < 3 \<and> (0::nat) \<noteq> 2" by simp
    with disj have dj: "rect_pixels (cell_rect 2 1 2 1 2) \<inter> rect_pixels (cell_rect 2 1 2 1 0) = {}"
      unfolding cols by simp
    show ?thesis using cg one d c inside p0 p1 dj by blast
  qed
qed

subsection \<open>Empty input\<close>

text \<open>
  C5. With no batch supplied, \<open>create_grid\<close> returns one black image of 512 x 512 x 3.
  With batches whose concatenation has no image, it returns one black image with the
  height, width and channel count of the first batch. Both results are values, not
  exceptions: the division by \<open>cols\<close> is not reached.
\<close>

theorem empty_input:
  "(collect_images slots = [] \<longrightarrow>
      create_grid interp columns padding slots =
        Inr \<lparr>t_height = 512, t_width = 512, t_channels = 3,
             t_images = [replicate 512 (replicate 512 (replicate 3 0))]\<rparr>)
   \<and> (collect_images slots = base # rest
        \<and> normalize_batches interp (base # rest) = Inr final_images
        \<and> batch_size_of final_images = 0 \<longrightarrow>
      create_grid interp columns padding slots =
        Inr \<lparr>t_height = t_height base, t_width = t_width base, t_channels = t_channels base,
             t_images = [replicate (t_height base)
                           (replicate (t_width base) (replicate (t_channels base) 0))]\<rparr>)"
  by (simp add: create_grid_def compose_grid_def zeros_def zeros_image_def)

theorem empty_input_witness:
  "create_grid nearest_interp 0 2 [None, None, None, None, None, None] =
     Inr \<lparr>t_height = 512, t_width = 512, t_channels = 3,
          t_images = [replicate 512 (replicate 512 (replicate 3 0))]\<rparr>
   \<and> create_grid nearest_interp 0 2
       [Some \<lparr>t_height = 4, t_width = 6, t_channels = 3, t_images = []\<rparr>, None,
        Some \<lparr>t_height = 2, t_width = 2, t_channels = 3, t_images = []\<rparr>] =
     Inr \<lparr>t_height = 4, t_width = 6, t_channels = 3,
          t_images = [replicate 4 (replicate 6 (replicate 3 0))]\<rparr>"
proof -
  let ?a = "\<lparr>t_height = 4, t_width = 6, t_channels = 3, t_images = []\<rparr>"
  let ?b = "\<lparr>t_height = 2, t_width = 2, t_channels = 3, t_images = []\<rparr>"
  have 1: "collect_images [None, None, None, None, None, None] = []"
    by (simp add: collect_images_def)
  have 2: "collect_images [Some ?a, None, Some ?b] = ?a # [?b]"
    by (simp add: collect_images_def)
  have 3: "normalize_batches nearest_interp (?a # [?b]) = Inr ?a"
    by (simp add: normalize_batches_def process_batch_def interpolate_def and_then_def
        same_trailing_shape_def)
  have 4: "batch_size_of ?a = 0" by (simp add: batch_size_of_def)
  from empty_input [of "[None, None, None, None, None, None]" nearest_interp 0 2]
       empty_input [of "[Some ?a, None, Some ?b]" nearest_interp 0 2 ?a "[?b]" ?a]
  show ?thesis using 1 2 3 4 by simp
qed

subsection \<open>Batch normalisation\<close>

lemma for_each_all_Inr:
  "\<forall>x\<in>set xs. f x = Inr (g x) \<Longrightarrow> for_each f xs = Inr (map g xs)"
  by (induction xs) simp_all

text \<open>
  C8, as amended. For a non-empty list of batches that all have the channel count of the
  first, and in which a batch to be resized has no height, width or channel count of 0
  and is not resized to a height or width of 0: the batches whose height or width
  differs from the first batch's are resized, the others are left as they are; the
  result has the height, width and channel count of the first batch, and its images are
  those of the batches in their order, as many per batch as before.
\<close>

theorem normalize_same_channels:
  assumes "\<forall>b\<in>set rest. t_channels b = t_channels base
             \<and> (t_height b \<noteq> t_height base \<or> t_width b \<noteq> t_width base \<longrightarrow>
                  0 < t_height b \<and> 0 < t_width b \<and> 0 < t_channels b
                  \<and> 0 < t_height base \<and> 0 < t_width base)"
  shows "normalize_batches interp (base # rest) =
           Inr \<lparr>t_height = t_height base, t_width = t_width base, t_channels = t_channels base,
                t_images = concat (map (\<lambda>b.
                    if t_height b \<noteq> t_height base \<or> t_width b \<noteq> t_width base
                    then map (interp (t_height base) (t_width base)) (t_images b)
                    else t_images b) (base # rest))\<rparr>"
proof -
  let ?th = "t_height base" and ?tw = "t_width base"
  let ?g = "\<lambda>b. if t_height b \<noteq> ?th \<or> t_width b \<noteq> ?tw
                then b\<lparr>t_height := ?th, t_width := ?tw,
                       t_images := map (interp ?th ?tw) (t_images b)\<rparr>
                else b"
  have each: "\<forall>b\<in>set (base # rest). process_batch interp ?th ?tw b = Inr (?g b)"
    using assms by (auto simp: process_batch_def interpolate_def)
  have loop: "for_each (process_batch interp ?th ?tw) (base # rest) = Inr (map ?g (base # rest))"
    using each by (rule for_each_all_Inr)
  have all: "list_all (same_trailing_shape base) (map ?g rest)"
    using assms by (auto simp: list_all_iff same_trailing_shape_def)
  have imgs: "map t_images (map ?g (base # rest)) =
      map (\<lambda>b. if t_height b \<noteq> ?th \<or> t_width b \<noteq> ?tw
                    then map (interp ?th ?tw) (t_images b)
                    else t_images b) (base # rest)"
    by simp
  have "normalize_batches interp (base # rest) =
          Inr (base\<lparr>t_images := concat (map t_images (map ?g (base # rest)))\<rparr>)"
    unfolding normalize_batches_def list.case loop and_then_def using all by simp
  then show ?thesis unfolding imgs by simp
qed

theorem normalize_same_channels_witness:
  "normalize_batches nearest_interp
     [\<lparr>t_height = 128, t_width = 128, t_channels = 3, t_images = [zeros_image 128 128 3]\<rparr>,
      \<lparr>t_height = 64, t_width = 64, t_channels = 3,
        t_images = [zeros_image 64 64 3, zeros_image 64 64 3]\<rparr>]
   = Inr \<lparr>t_height = 128, t_width = 128, t_channels = 3,
          t_images = [zeros_image 128 128 3,
                      nearest_interp 128 128 (zeros_image 64 64 3),
                      nearest_interp 128 128 (zeros_image 64 64 3)]\<rparr>"
proof -
  let ?base = "\<lparr>t_height = 128, t_width = 128, t_channels = 3, t_images = [zeros_image 128 128 3]\<rparr>"
  let ?small = "\<lparr>t_height = 64, t_width = 64, t_channels = 3,
        t_images = [zeros_image 64 64 3, zeros_image 64 64 3]\<rparr>"
  have "\<forall>b\<in>set [?small]. t_channels b = t_channels ?base
             \<and> (t_height b \<noteq> t_height ?base \<or> t_width b \<noteq> t_width ?base \<longrightarrow>
                  0 < t_height b \<and> 0 < t_width b \<and> 0 < t_channels b
                  \<and> 0 < t_height ?base \<and> 0 < t_width ?base)" by simp
  from normalize_same_channels [OF this, of nearest_interp] show ?thesis by simp
qed

text \<open>
  The claim as stated, for every non-empty list, fails where channel counts differ:
  the concatenation raises.
\<close>

theorem normalize_channel_mismatch:
  "normalize_batches nearest_interp
     [\<lparr>t_height = 1, t_width = 1, t_channels = 3, t_images = [[[[0, 0, 0]]]]\<rparr>,
      \<lparr>t_height = 1, t_width = 1, t_channels = 4, t_images = [[[[0, 0, 0, 0]]]]\<rparr>]
   = Inl RuntimeError"
  by (simp add: normalize_batches_def process_batch_def and_then_def same_trailing_shape_def)

text \<open>It fails as well where a batch of height and width 0 sets the reference size.\<close>

lemma normalize_zero_size:
  "normalize_batches nearest_interp
     [\<lparr>t_height = 0, t_width = 0, t_channels = 3, t_images = [[]]\<rparr>,
      \<lparr>t_height = 2, t_width = 2, t_channels = 3,
        t_images = [[[[0, 0, 0], [0, 0, 0]], [[0, 0, 0], [0, 0, 0]]]]\<rparr>]
   = Inl RuntimeError"
  by (simp add: normalize_batches_def process_batch_def interpolate_def and_then_def)

section \<open>Properties of the text label\<close>

subsection \<open>Colours\<close>


lemma hex_val_less: "hex_val c = Some d \<Longrightarrow> d < 16"
  by (auto simp: hex_val_def Let_def split: if_splits)


lemma alpha_value_range: "0 \<le> alpha_value fl alpha \<and> alpha_value fl alpha \<le> 255"
  by (simp add: alpha_value_def)




text \<open>
  C4: \<open>hex_to_rgba\<close> raises on a string of length 3 whose characters are not
  hexadecimal digits. For \<open>#GGG\<close> the call \<open>int("GG", 16)\<close> raises \<open>ValueError\<close>, whatever
  the opacity; the fallback to white is taken for the other lengths only.
\<close>

theorem hex_to_rgba_non_hex:
  "hex_to_rgba fl ''#GGG'' alpha = Inl ValueError"
  by (simp add: hex_to_rgba_def strip_def lstrip_hash_def is_space_def py_int16_def hex_val_def
      and_then_def Let_def)

subsection \<open>Placement of the box\<close>

text \<open>
  C7, as amended. \<open>calculate_position\<close> returns the formula of the anchor: the four
  corners as the claim gives them, and for \<open>center\<close> the floors of the halves of
  \<open>image_width - box_width\<close> and \<open>image_height - box_height\<close> (the floor, not the
  truncation towards zero: they differ when the box is larger than the image by an odd
  amount). Every other anchor gives the position of \<open>center\<close>. Nothing is clamped to
  the image. Image (200, 100), box (50, 20), \<open>bottom_right\<close> and offset 10 give (140, 70).
\<close>

theorem calculate_position_spec:
  "calculate_position iw ih bw bh ''top_left'' off = (off, off)
   \<and> calculate_position iw ih bw bh ''top_right'' off = (iw - bw - off, off)
   \<and> calculate_position iw ih bw bh ''bottom_left'' off = (off, ih - bh - off)
   \<and> calculate_position iw ih bw bh ''bottom_right'' off = (iw - bw - off, ih - bh - off)
   \<and> calculate_position iw ih bw bh ''center'' off =
        (\<lfloor>real_of_int (iw - bw) / 2\<rfloor>, \<lfloor>real_of_int (ih - bh) / 2\<rfloor>)
   \<and> (placement \<notin> {''top_left'', ''top_right'', ''bottom_left'', ''bottom_right'', ''center''} \<longrightarrow>
        calculate_position iw ih bw bh placement off =
          (\<lfloor>real_of_int (iw - bw) / 2\<rfloor>, \<lfloor>real_of_int (ih - bh) / 2\<rfloor>))
   \<and> calculate_position 200 100 50 20 ''bottom_right'' 10 = (140, 70)"
proof -
  have f: "\<And>k::int. \<lfloor>real_of_int k / 2\<rfloor> = k div 2"
    using floor_divide_of_int_eq [where ?'a = real and l = 2] by simp
  show ?thesis
    unfolding f by (simp add: calculate_position_def)
qed

text \<open>
  The theorem at an anchor that is not one of the five, and at \<open>top_right\<close>, for a box
  larger than the image: the coordinates are negative.
\<close>

theorem calculate_position_spec_witness:
  "calculate_position 10 10 13 13 ''middle'' 4 = (- 2, - 2)
   \<and> calculate_position 10 10 13 13 ''top_right'' 4 = (- 7, 4)"
proof -
  have "''middle'' \<notin> {''top_left'', ''top_right'', ''bottom_left'', ''bottom_right'', ''center''}"
    by simp
  with calculate_position_spec [of 10 10 13 13 4 "''middle''"] show ?thesis by simp
qed

text \<open>
  C7 as stated fails: for an image of 10 by 10 and a box of 13 by 13, \<open>center\<close> gives
  (-2, -2), and the halves truncated towards zero are (-1, -1).
\<close>

theorem calculate_position_floors:
  "calculate_position 10 10 13 13 ''center'' 0 \<noteq> ((10 - 13) sdiv 2, (10 - 13) sdiv 2)"
  by (simp add: calculate_position_def signed_divide_int_def)

subsection \<open>Fonts\<close>

text \<open>
  The loop passes over the paths that fail, and its result is the default or the font of
  a path that loads.
\<close>

lemma try_fonts_skip:
  "\<forall>q\<in>set pre. isl (truetype q font_size) \<Longrightarrow>
     try_fonts truetype font_size dflt (pre @ rest) = try_fonts truetype font_size dflt rest"
  by (induction pre) (auto split: sum.splits)

lemma try_fonts_result:
  "try_fonts truetype font_size dflt paths = dflt
     \<or> (\<exists>p\<in>set paths. try_fonts truetype font_size dflt paths = truetype p font_size
                        \<and> \<not> isl (truetype p font_size))"
  by (induction paths) (auto split: sum.splits)

text \<open>
  C6. \<open>load_font\<close> tries the paths of \<open>get_font_paths\<close> in the order of the list: when
  every path before \<open>p\<close> fails and \<open>p\<close> loads, the font of \<open>p\<close> is returned, whatever the
  later paths do. When every path fails, the result is that of
  \<open>ImageFont.load_default()\<close>; so it is for a family in neither table on a system that
  is not Linux, where there is no path at all. No exception of a candidate reaches the
  caller: the result is always that of \<open>ImageFont.load_default()\<close> or the font of a
  candidate that loaded, so \<open>load_font\<close> returns a font whenever the built-in default
  font is there.
\<close>

theorem load_font_spec:
  "(get_font_paths env font_family = pre @ p # post
      \<and> (\<forall>q\<in>set pre. isl (truetype q font_size)) \<and> truetype p font_size = Inr font \<longrightarrow>
    load_font env truetype dflt font_family font_size = Inr font)
   \<and> ((\<forall>q\<in>set (get_font_paths env font_family). isl (truetype q font_size)) \<longrightarrow>
    load_font env truetype dflt font_family font_size = dflt)
   \<and> (map_of CUSTOM_FONTS font_family = None \<and> map_of SYSTEM_FONTS font_family = None
      \<and> str_lower (platform_system env) \<noteq> ''linux'' \<longrightarrow>
    get_font_paths env font_family = []
      \<and> load_font env truetype dflt font_family font_size = dflt)
   \<and> (load_font env truetype dflt font_family font_size = dflt
      \<or> (\<exists>q\<in>set (get_font_paths env font_family).
            load_font env truetype dflt font_family font_size = truetype q font_size
            \<and> \<not> isl (truetype q font_size)))
   \<and> (\<not> isl dflt \<longrightarrow> \<not> isl (load_font env truetype dflt font_family font_size))"
proof (intro conjI impI)
  assume a: "get_font_paths env font_family = pre @ p # post
      \<and> (\<forall>q\<in>set pre. isl (truetype q font_size)) \<and> truetype p font_size = Inr font"
  then have "try_fonts truetype font_size dflt (pre @ p # post)
               = try_fonts truetype font_size dflt (p # post)"
    by (intro try_fonts_skip) simp
  with a show "load_font env truetype dflt font_family font_size = Inr font"
    by (simp add: load_font_def)
next
  assume "\<forall>q\<in>set (get_font_paths env font_family). isl (truetype q font_size)"
  then have "try_fonts truetype font_size dflt (get_font_paths env font_family @ [])
               = try_fonts truetype font_size dflt []"
    by (rule try_fonts_skip)
  then show "load_font env truetype dflt font_family font_size = dflt"
    by (simp add: load_font_def)
next
  assume a: "map_of CUSTOM_FONTS font_family = None \<and> map_of SYSTEM_FONTS font_family = None
      \<and> str_lower (platform_system env) \<noteq> ''linux''"
  then show e: "get_font_paths env font_family = []"
    by (simp add: get_font_paths_def)
  show "load_font env truetype dflt font_family font_size = dflt"
    by (simp add: load_font_def e)
next
  from try_fonts_result [of truetype font_size dflt "get_font_paths env font_family"]
  show "load_font env truetype dflt font_family font_size = dflt
      \<or> (\<exists>q\<in>set (get_font_paths env font_family).
            load_font env truetype dflt font_family font_size = truetype q font_size
            \<and> \<not> isl (truetype q font_size))"
    by (simp add: load_font_def)
next
  assume "\<not> isl dflt"
  with try_fonts_result [of truetype font_size dflt "get_font_paths env font_family"]
  show "\<not> isl (load_font env truetype dflt font_family font_size)"
    by (auto simp: load_font_def)
qed

text \<open>The paths of Arial on the Linux environment, in their order.\<close>

lemma lower_Linux: "str_lower ''Linux'' = ''linux''"
  by code_simp

lemma lower_Windows: "str_lower ''Windows'' = ''windows''"
  by code_simp

lemma get_font_paths_Arial:
  "get_font_paths linux_env ''Arial'' =
     [''arial.ttf'', ''/pack/fonts/arial.ttf'', ''Arial.ttf''] @ ''/pack/fonts/Arial.ttf'' #
     [win_path [''C:'', ''Windows'', ''Fonts'', ''arial.ttf''],
      ''/Library/Fonts/Arial.ttf'',
      ''/usr/share/fonts/truetype/msttcorefonts/Arial.ttf'',
      ''/home/user/.fonts/DejaVuSansMono.ttf'',
      ''/home/user/.local/share/fonts/DejaVuSansMono.ttf'']"
  by (simp add: get_font_paths_def CUSTOM_FONTS_def SYSTEM_FONTS_def linux_env_def posix_join_def
      lower_Linux Let_def)

text \<open>
  The theorem on the examples: Arial is found at the fourth path, after three failures;
  no path of Monospace loads and the default is returned; an unknown family has no path
  on Windows, and on Linux its two paths fail.
\<close>

theorem load_font_spec_witness:
  "load_font linux_env bundled_only (Inr 10) ''Arial'' 30 = Inr 30
   \<and> load_font linux_env bundled_only (Inr 10) ''Monospace'' 30 = Inr 10
   \<and> get_font_paths windows_env ''Papyrus'' = []
   \<and> load_font windows_env bundled_only (Inr 10) ''Papyrus'' 30 = Inr 10
   \<and> \<not> isl (load_font linux_env bundled_only (Inr 10) ''Papyrus'' 30)"
proof -
  have pre: "\<forall>q\<in>set [''arial.ttf'', ''/pack/fonts/arial.ttf'', ''Arial.ttf'']. isl (bundled_only q 30)"
    by (simp add: bundled_only_def)
  have hit: "bundled_only ''/pack/fonts/Arial.ttf'' 30 = Inr 30"
    by (simp add: bundled_only_def)
  have mono: "\<forall>q\<in>set (get_font_paths linux_env ''Monospace''). isl (bundled_only q 30)"
    by (simp add: get_font_paths_def CUSTOM_FONTS_def SYSTEM_FONTS_def linux_env_def posix_join_def
        lower_Linux Let_def bundled_only_def win_path_def)
  have unknown: "map_of CUSTOM_FONTS ''Papyrus'' = None \<and> map_of SYSTEM_FONTS ''Papyrus'' = None
      \<and> str_lower (platform_system windows_env) \<noteq> ''linux''"
    by (simp add: CUSTOM_FONTS_def SYSTEM_FONTS_def windows_env_def lower_Windows)
  have d: "\<not> isl (Inr 10 :: py_error + int)" by simp
  from load_font_spec [of linux_env "''Arial''" "[''arial.ttf'', ''/pack/fonts/arial.ttf'', ''Arial.ttf'']"
      "''/pack/fonts/Arial.ttf''" _ bundled_only 30 30 "Inr 10"]
    load_font_spec [of linux_env "''Monospace''" _ _ _ bundled_only 30 _ "Inr 10"]
    load_font_spec [of windows_env "''Papyrus''" _ _ _ bundled_only 30 _ "Inr 10"]
    load_font_spec [of linux_env "''Papyrus''" _ _ _ bundled_only 30 _ "Inr 10"]
  show ?thesis
    using get_font_paths_Arial pre hit mono unknown d by simp
qed

subsection \<open>The batch\<close>

text \<open>
  What a returned batch is: the font was loaded, and image \<open>i\<close> of the output is the
  result of the loop body on image \<open>i\<close> of the input, so the batch size is that of the
  input and no image depends on another.
\<close>

lemma for_each_Inr:
  "for_each f xs = Inr ys \<Longrightarrow> list_all2 (\<lambda>x y. f x = Inr y) xs ys"
  by (induction xs arbitrary: ys) (auto split: sum.splits)

lemma torch_stack_Inr: "torch_stack imgs = Inr t \<Longrightarrow> t_images t = imgs \<and> imgs \<noteq> []"
  by (cases imgs) (auto split: if_splits prod.splits)

lemma add_text_label_Inr:
  assumes "add_text_label fl pil env image_arg st = Inr out"
  shows "\<exists>font text_color bg_color stroke_color.
           load_font env (pil_truetype pil) (pil_load_default pil)
             (st_font_family st) (st_font_size st) = Inr font
         \<and> list_all2 (\<lambda>x y. label_image fl pil font st text_color bg_color stroke_color x = Inr y)
             (t_images (ensure_4d image_arg)) (t_images out)"
proof -
  let ?lf = "load_font env (pil_truetype pil) (pil_load_default pil)
             (st_font_family st) (st_font_size st)"
  from assms obtain font where lf: "?lf = Inr font"
    by (cases ?lf) (simp_all add: add_text_label_def and_then_def)
  obtain tc bc sc where cs: "(if st_color_scheme st = ''white_on_black''
                  then (''#FFFFFF'', ''#000000'', ''#000000'')
                  else (''#000000'', ''#FFFFFF'', ''#FFFFFF'')) = (tc, bc, sc)"
    by (metis prod_cases3)
  let ?loop = "for_each (label_image fl pil font st tc bc sc) (t_images (ensure_4d image_arg))"
  from assms have st: "and_then ?loop torch_stack = Inr out"
    unfolding add_text_label_def Let_def lf cs by (simp add: and_then_def)
  then obtain outs where loop: "?loop = Inr outs" and stack: "torch_stack outs = Inr out"
    by (cases ?loop) (simp_all add: and_then_def)
  from for_each_Inr [OF loop] torch_stack_Inr [OF stack] lf show ?thesis by blast
qed

lemma add_text_label_batch:
  assumes "add_text_label fl pil env image_arg st = Inr out"
  shows "batch_size_of out = length (t_images (ensure_4d image_arg))"
  using add_text_label_Inr [OF assms] by (auto simp: batch_size_of_def dest: list_all2_lengthD)

text \<open>
  C9: on a batch of four dimensions without images (shape 0 \<times> 64 \<times> 64 \<times> 3) the loop
  collects nothing and \<open>torch.stack\<close> raises \<open>RuntimeError\<close> on the empty list: no batch
  of size 0 is returned. \<open>ImageGrid.create_grid\<close> tests \<open>batch_size == 0\<close> for the same
  input; \<open>add_text_label\<close> has no such test.
\<close>

theorem label_empty_batch:
  "add_text_label fl pil env
     (Tensor4D \<lparr>t_height = 64, t_width = 64, t_channels = 3, t_images = []\<rparr>) st =
   (case load_font env (pil_truetype pil) (pil_load_default pil)
           (st_font_family st) (st_font_size st) of
      Inl e \<Rightarrow> Inl e
    | Inr font \<Rightarrow> Inl RuntimeError)"
  by (simp add: add_text_label_def and_then_def split: sum.splits prod.splits)

subsection \<open>Range of the samples\<close>

text \<open>
  The conversions. A sample is clamped to 0..1 before it is scaled, so the rounded value
  is one of 0..255 and the conversion to 8 bits does not wrap; a byte divided by 255 is
  in 0..1.
\<close>

lemma round_half_even_cases:
  "round_half_even x = \<lfloor>x\<rfloor> \<or> round_half_even x = \<lfloor>x\<rfloor> + 1"
  by (simp add: round_half_even_def Let_def)

lemma round_half_even_range:
  assumes "0 \<le> x" and "x \<le> 255"
  shows "0 \<le> round_half_even x \<and> round_half_even x \<le> 255"
proof -
  define f where "f = \<lfloor>x\<rfloor>"
  have f0: "0 \<le> f" using assms(1) by (simp add: f_def)
  have "\<lfloor>x\<rfloor> \<le> \<lfloor>255 :: real\<rfloor>" using assms(2) by (rule floor_mono)
  then have f1: "f \<le> 255" by (simp add: f_def)
  show ?thesis
  proof (cases "f = 255")
    case True
    moreover have "real_of_int \<lfloor>x\<rfloor> \<le> x" by (rule of_int_floor_le)
    ultimately have "x = 255" using assms(2) by (simp add: f_def)
    then show ?thesis by (simp add: round_half_even_def)
  next
    case False
    with f1 have "f + 1 \<le> 255" by simp
    with f0 round_half_even_cases [of x] show ?thesis
      unfolding f_def [symmetric] by auto
  qed
qed

lemma round32_range:
  assumes "rounds_to_nearest rnd" and "0 \<le> x" and "x \<le> 255"
  shows "0 \<le> rnd x \<and> rnd x \<le> 255"
proof -
  from assms(1) have m: "\<And>a b. a \<le> b \<Longrightarrow> rnd a \<le> rnd b" and z: "rnd 0 = 0" and t: "rnd 255 = 255"
    by (simp_all add: rounds_to_nearest_def)
  from m [OF assms(2)] m [OF assms(3)] z t show ?thesis by simp
qed

lemma to_uint8_unat:
  assumes "rounds_to_nearest (round32 fl)"
  shows "int (unat (to_uint8 fl v)) = round_half_even (round32 fl (min 1 (max 0 v) * 255))"
proof -
  let ?c = "min 1 (max 0 v) * 255"
  have "0 \<le> ?c" and "?c \<le> 255" by simp_all
  from round32_range [OF assms this]
  have "0 \<le> round_half_even (round32 fl ?c) \<and> round_half_even (round32 fl ?c) \<le> 255"
    by (intro round_half_even_range) simp_all
  then show ?thesis
    by (simp add: to_uint8_def unsigned_of_int take_bit_int_eq_self)
qed

lemma to_uint8_high:
  assumes "rounds_to_nearest (round32 fl)" and "1 \<le> v"
  shows "to_uint8 fl v = 255"
proof -
  from assms(2) have "min 1 (max 0 v) = 1" by simp
  moreover from assms(1) have "round32 fl 255 = 255" by (simp add: rounds_to_nearest_def)
  ultimately show ?thesis by (simp add: to_uint8_def round_half_even_def)
qed

lemma to_uint8_low:
  assumes "rounds_to_nearest (round32 fl)" and "v \<le> 0"
  shows "to_uint8 fl v = 0"
proof -
  from assms(2) have "min 1 (max 0 v) = 0" by simp
  moreover from assms(1) have "round32 fl 0 = 0" by (simp add: rounds_to_nearest_def)
  ultimately show ?thesis by (simp add: to_uint8_def round_half_even_def)
qed

lemma from_uint8_range:
  assumes "rounds_to_nearest (round32 fl)"
  shows "0 \<le> from_uint8 fl b \<and> from_uint8 fl b \<le> 1"
proof -
  from assms have m: "\<And>x y. x \<le> y \<Longrightarrow> round32 fl x \<le> round32 fl y"
    and z: "round32 fl 0 = 0" and o: "round32 fl 1 = 1"
    by (simp_all add: rounds_to_nearest_def)
  define u where "u = unat b"
  have "unat b < 2 ^ LENGTH(8)" by (rule unsigned_less)
  then have "u \<le> 255" by (simp add: u_def)
  then have "real u \<le> real 255" by (simp only: of_nat_le_iff)
  then have "0 \<le> real u / 255" and "real u / 255 \<le> 1" by simp_all
  from m [OF this(1)] m [OF this(2)] z o show ?thesis
    unfolding from_uint8_def u_def by simp
qed

lemma pil_to_tensor_range:
  assumes "rounds_to_nearest (round32 fl)"
    and "row \<in> set (pil_to_tensor fl pil img)" and "px \<in> set row" and "v \<in> set px"
  shows "0 \<le> v \<and> v \<le> 1"
  using assms(2-4) from_uint8_range [OF assms(1)] by (auto simp: pil_to_tensor_def)

lemma and_then_Inr: "and_then m f = Inr y \<Longrightarrow> \<exists>x. m = Inr x \<and> f x = Inr y"
  by (cases m) (simp_all add: and_then_def)

lemma label_image_Inr:
  assumes "label_image fl pil font st text_color bg_color stroke_color tensor = Inr y"
  shows "\<exists>rgb. y = pil_to_tensor fl pil rgb"
  using assms unfolding label_image_def Let_def
  by (auto dest!: and_then_Inr split: prod.splits)

text \<open>
  C10. With roundings to nearest, every sample of a batch that \<open>add_text_label\<close> returns
  is in [0, 1], whatever the samples of the input. On the way in, a sample of 1 or more
  becomes the byte 255 and a sample of 0 or less the byte 0, and in general the byte is
  the rounded product of the clamped sample and 255, without wrap-around; on the way
  back the sample is the byte divided by 255.
\<close>

theorem label_range:
  assumes "rounds_to_nearest (round32 fl)"
    and "add_text_label fl pil env image_arg st = Inr out"
  shows "(\<forall>img\<in>set (t_images out). \<forall>row\<in>set img. \<forall>px\<in>set row. \<forall>v\<in>set px. 0 \<le> v \<and> v \<le> 1)
     \<and> (\<forall>v. 1 \<le> v \<longrightarrow> to_uint8 fl v = 255)
     \<and> (\<forall>v. v \<le> 0 \<longrightarrow> to_uint8 fl v = 0)
     \<and> (\<forall>v. int (unat (to_uint8 fl v)) = round_half_even (round32 fl (min 1 (max 0 v) * 255)))
     \<and> (\<forall>b. from_uint8 fl b = round32 fl (real (unat b) / 255))"
proof (intro conjI ballI allI impI)
  fix img row px v
  assume img: "img \<in> set (t_images out)" and row: "row \<in> set img" and px: "px \<in> set row"
    and v: "v \<in> set px"
  from add_text_label_Inr [OF assms(2)] obtain font tc bc sc where
    l: "list_all2 (\<lambda>x y. label_image fl pil font st tc bc sc x = Inr y)
          (t_images (ensure_4d image_arg)) (t_images out)"
    by blast
  from img obtain i where i: "i < length (t_images out)" and e: "img = t_images out ! i"
    by (auto simp: in_set_conv_nth)
  from l i have "label_image fl pil font st tc bc sc (t_images (ensure_4d image_arg) ! i) = Inr img"
    unfolding e by (simp add: list_all2_conv_all_nth)
  from label_image_Inr [OF this] obtain rgb where eq: "img = pil_to_tensor fl pil rgb" ..
  from row have "row \<in> set (pil_to_tensor fl pil rgb)" by (simp add: eq)
  from pil_to_tensor_range [OF assms(1) this px v] show "0 \<le> v" and "v \<le> 1" by simp_all
next
  fix v :: real assume "1 \<le> v"
  with assms(1) show "to_uint8 fl v = 255" by (rule to_uint8_high)
next
  fix v :: real assume "v \<le> 0"
  with assms(1) show "to_uint8 fl v = 0" by (rule to_uint8_low)
next
  fix v show "int (unat (to_uint8 fl v)) = round_half_even (round32 fl (min 1 (max 0 v) * 255))"
    using assms(1) by (rule to_uint8_unat)
next
  fix b show "from_uint8 fl b = round32 fl (real (unat b) / 255)"
    by (simp add: from_uint8_def)
qed

text \<open>The renderer on one pixel with the samples 2, -1 and 1/2.\<close>

lemma load_font_Arial: "load_font linux_env bundled_only (Inr 10) ''Arial'' 30 = Inr 30"
  unfolding load_font_def get_font_paths_Arial by (simp add: bundled_only_def win_path_def)

lemma example_samples:
  "to_uint8 no_rounding 2 = 255" "to_uint8 no_rounding (- 1) = 0"
  "to_uint8 no_rounding (1 / 2) = 128"
  "from_uint8 no_rounding 255 = 1" "from_uint8 no_rounding 0 = 0"
  "from_uint8 no_rounding 128 = 128 / 255"
  by (simp_all add: to_uint8_def from_uint8_def no_rounding_def round_half_even_def)

lemma example_label:
  "add_text_label no_rounding passthrough_pil linux_env
     (Tensor4D \<lparr>t_height = 1, t_width = 1, t_channels = 3, t_images = [[[[2, - 1, 1 / 2]]]]\<rparr>)
     plain_style =
   Inr \<lparr>t_height = 1, t_width = 1, t_channels = 3, t_images = [[[[1, 0, 128 / 255]]]]\<rparr>"
proof -
  have lf: "load_font linux_env (pil_truetype passthrough_pil) (pil_load_default passthrough_pil)
      (st_font_family plain_style) (st_font_size plain_style) = Inr 30"
    using load_font_Arial by (simp add: passthrough_pil_def plain_style_def)
  have white: "hex_to_rgba no_rounding ''#FFFFFF'' a = Inr (255, 255, 255, alpha_value no_rounding a)"
    and black: "hex_to_rgba no_rounding ''#000000'' a = Inr (0, 0, 0, alpha_value no_rounding a)" for a
    by (simp_all add: hex_to_rgba_def strip_def lstrip_hash_def is_space_def py_int16_def
        hex_val_def and_then_def Let_def)
  have li: "label_image no_rounding passthrough_pil 30 plain_style ''#000000'' ''#FFFFFF'' ''#FFFFFF''
      [[[2, - 1, 1 / 2]]] = Inr [[[1, 0, 128 / 255]]]"
    unfolding label_image_def tensor_to_pil_def pil_to_tensor_def get_text_bbox_def
    by (simp add: passthrough_pil_def and_then_def white black example_samples Let_def
        calculate_position_def plain_style_def)
  show ?thesis
    unfolding add_text_label_def Let_def lf
    by (simp add: and_then_def plain_style_def li [unfolded plain_style_def] image_shape_def)
qed

text \<open>
  The theorem on that pixel: the samples of the output are 1, 0 and 128/255, and the
  samples 7 and -7 become the bytes 255 and 0.
\<close>

theorem label_range_witness:
  "rounds_to_nearest (round32 no_rounding)
   \<and> add_text_label no_rounding passthrough_pil linux_env
       (Tensor4D \<lparr>t_height = 1, t_width = 1, t_channels = 3, t_images = [[[[2, - 1, 1 / 2]]]]\<rparr>)
       plain_style =
     Inr \<lparr>t_height = 1, t_width = 1, t_channels = 3, t_images = [[[[1, 0, 128 / 255]]]]\<rparr>
   \<and> 0 \<le> (128 / 255 :: real) \<and> (128 / 255 :: real) \<le> 1
   \<and> to_uint8 no_rounding 7 = 255 \<and> to_uint8 no_rounding (- 7) = 0"
proof -
  have r: "rounds_to_nearest (round32 no_rounding)"
    by (simp add: rounds_to_nearest_def no_rounding_def)
  from label_range [OF r example_label] r example_label show ?thesis by simp
qed

end
